theory Spec2Isabelle
  imports Main "HOL-Library.Word"
begin

section \<open>Data model\<close>

text \<open>
  The texts the component handles are modelled as HOL strings, that is as lists of
  8-bit code units; \<open>length\<close> is the string's \<open>.length\<close>. The pattern of
  \<open>getYoutubeVideoId\<close> is modelled on lists of arbitrary code units, so that its
  properties hold of every JavaScript string. A \<open>Blob\<close> is its bytes and its
  content type, a \<open>File\<close> is a blob with a name. A thrown JavaScript value is an
  error object with an optional \<open>message\<close>.
\<close>

type_synonym byte = "8 word"

record blob =
  blob_data :: "byte list"
  blob_type :: string

definition blob_size :: "blob \<Rightarrow> nat" where
  "blob_size b = length (blob_data b)"

text \<open>\<open>new Blob(parts, {type})\<close>: the parts' bytes one after the other, in list order.\<close>

definition new_Blob :: "blob list \<Rightarrow> string \<Rightarrow> blob" where
  "new_Blob parts ty = \<lparr>blob_data = concat (map blob_data parts), blob_type = ty\<rparr>"

record jsfile =
  file_name :: string
  file_type :: string
  file_data :: "byte list"

definition file_blob :: "jsfile \<Rightarrow> blob" where
  "file_blob f = \<lparr>blob_data = file_data f, blob_type = file_type f\<rparr>"

datatype js_error = JsError (message: "string option")

text \<open>\<open>types.ts\<close>: the payload handed to the application. \<open>duration\<close> is declared
  optional and never assigned by the code; the field \<open>file\<close> is \<open>file_obj\<close> here.\<close>

record AudioState =
  file_obj :: "jsfile option"
  base64 :: "string option"
  mimeType :: string
  duration :: "nat option"
  name :: "string option"

datatype AppStatus = IDLE | PROCESSING | COMPLETED | ERROR

subsection \<open>String operations of the language\<close>

text \<open>\<open>s.split(sep)\<close> for a one-character separator, \<open>xs[i]\<close> (\<open>undefined\<close> out of
  range is \<open>None\<close>), and \<open>s.startsWith(p)\<close>.\<close>

fun js_split :: "char \<Rightarrow> string \<Rightarrow> string list" where
  "js_split sep [] = [[]]"
| "js_split sep (c # cs) =
     (if c = sep then [] # js_split sep cs
      else (case js_split sep cs of
              w # ws \<Rightarrow> (c # w) # ws
            | [] \<Rightarrow> [[c]]))"

definition js_index :: "'a list \<Rightarrow> nat \<Rightarrow> 'a option" where
  "js_index xs i = (if i < length xs then Some (xs ! i) else None)"

definition startsWith :: "string \<Rightarrow> string \<Rightarrow> bool" where
  "startsWith s p = (take (length p) s = p)"

section \<open>Identifier extraction: \<open>getYoutubeVideoId\<close>\<close>

text \<open>
  A code unit is a number (JavaScript's are below 65536), and a string in general
  is a list of code units. \<open>units\<close> gives the code units of a string of 8-bit code
  units, \<open>chars\<close> goes back.
\<close>

type_synonym code_unit = nat

definition units :: "string \<Rightarrow> code_unit list" where
  "units s = map of_char s"

definition chars :: "code_unit list \<Rightarrow> string" where
  "chars us = map char_of us"

text \<open>
  The pattern is
  \<^verbatim>\<open>/^.*(youtu.be\/|v\/|u\/\w\/|embed\/|watch\?v=|&v=)([^#&?]*).*/\<close>.
  It is embedded as a backtracking matcher in continuation-passing style: a matcher
  takes the continuation that matches the rest of the pattern and the remaining input,
  and answers with the first success in the engine's search order. A greedy star tries
  the longest repetition first and gives characters back one at a time; an alternation
  tries its branches from left to right.
\<close>

text \<open>The line terminators of the language: LF, CR, U+2028 and U+2029.\<close>

definition line_terminator :: "code_unit \<Rightarrow> bool" where
  "line_terminator c = (c = 0x0A \<or> c = 0x0D \<or> c = 0x2028 \<or> c = 0x2029)"

text \<open>\<open>.\<close> (no \<open>s\<close> flag), \<open>\w\<close> and \<open>[^#&?]\<close>.\<close>

definition dot_class :: "code_unit \<Rightarrow> bool" where
  "dot_class c = (\<not> line_terminator c)"

definition word_class :: "code_unit \<Rightarrow> bool" where
  "word_class c =
     (c \<in> set (units ''ABCDEFGHIJKLMNOPQRSTUVWXYZabcdefghijklmnopqrstuvwxyz0123456789_''))"

definition token_class :: "code_unit \<Rightarrow> bool" where
  "token_class c = (c \<notin> set (units ''#&?''))"

type_synonym 'a cont = "code_unit list \<Rightarrow> 'a option"

fun chr_m :: "(code_unit \<Rightarrow> bool) \<Rightarrow> 'a cont \<Rightarrow> 'a cont" where
  "chr_m p k [] = None"
| "chr_m p k (c # cs) = (if p c then k cs else None)"

fun lit_m :: "code_unit list \<Rightarrow> 'a cont \<Rightarrow> 'a cont" where
  "lit_m [] k s = k s"
| "lit_m (x # xs) k s = chr_m (\<lambda>c. c = x) (lit_m xs k) s"

fun star_m :: "(code_unit \<Rightarrow> bool) \<Rightarrow> 'a cont \<Rightarrow> 'a cont" where
  "star_m p k [] = k []"
| "star_m p k (c # cs) =
     (if p c
      then (case star_m p k cs of
              Some r \<Rightarrow> Some r
            | None \<Rightarrow> k (c # cs))
      else k (c # cs))"

fun alt_m :: "('a cont \<Rightarrow> 'a cont) list \<Rightarrow> 'a cont \<Rightarrow> 'a cont" where
  "alt_m [] k s = None"
| "alt_m (m # ms) k s =
     (case m k s of
        Some r \<Rightarrow> Some r
      | None \<Rightarrow> alt_m ms k s)"

text \<open>The six branches of the first group, in the order of the pattern.\<close>

definition shapes :: "(code_unit list cont \<Rightarrow> code_unit list cont) list" where
  "shapes =
     [lit_m (units ''youtu'') \<circ> chr_m dot_class \<circ> lit_m (units ''be/''),
      lit_m (units ''v/''),
      lit_m (units ''u/'') \<circ> chr_m word_class \<circ> lit_m (units ''/''),
      lit_m (units ''embed/''),
      lit_m (units ''watch?v=''),
      lit_m (units ''&v='')]"

text \<open>
  \<open>url.match(regExp)\<close>: \<open>None\<close> is \<open>null\<close>; on a match the result is the text of
  the second group, \<open>match[2]\<close>, the only part of the match the code reads. The pattern
  starts with \<open>^\<close>, so the only start position is 0. The second group is the input
  between the end of the first group (\<open>s2\<close>) and the end of \<open>[^#&?]*\<close> (\<open>s3\<close>).
\<close>

definition regExp_match :: "code_unit list \<Rightarrow> code_unit list option" where
  "regExp_match url =
     star_m dot_class
       (alt_m shapes
          (\<lambda>s2. star_m token_class
                  (\<lambda>s3. star_m dot_class
                          (\<lambda>s4. Some (take (length s2 - length s3) s2)) s3) s2)) url"

text \<open>The function of the source, on any string.\<close>

definition getYoutubeVideoId_units :: "code_unit list \<Rightarrow> code_unit list option" where
  "getYoutubeVideoId_units url =
     (case regExp_match url of
        Some m2 \<Rightarrow> if length m2 = 11 then Some m2 else None
      | None \<Rightarrow> None)"

text \<open>The same function on a string of 8-bit code units, as the component's state
  holds them here.\<close>

definition getYoutubeVideoId :: "string \<Rightarrow> string option" where
  "getYoutubeVideoId url = map_option chars (getYoutubeVideoId_units (units url))"

subsection \<open>The known shapes as the specification names them\<close>

text \<open>
  The three shapes: the watch page's query parameter, the path segment of a short link,
  the path segment of an embed link. A URL has a shape with a token when it consists of
  a prefix, the text of the shape, the token and a rest, the token ending where the
  first of \<open>#\<close>, \<open>&\<close>, \<open>?\<close> or the end of the URL comes. A URL contains a shape
  when the text of the shape occurs in it somewhere.
\<close>

definition claimed_shapes :: "code_unit list list" where
  "claimed_shapes = [units ''watch?v='', units ''youtu.be/'', units ''embed/'']"

definition shape_with_token ::
  "code_unit list \<Rightarrow> code_unit list \<Rightarrow> code_unit list \<Rightarrow> code_unit list \<Rightarrow> code_unit list \<Rightarrow> bool" where
  "shape_with_token url pre mk tok rest =
     (mk \<in> set claimed_shapes \<and> url = pre @ mk @ tok @ rest \<and>
      (\<forall>c \<in> set tok. token_class c) \<and> (rest = [] \<or> \<not> token_class (hd rest)))"

fun occurs_in :: "'a list \<Rightarrow> 'a list \<Rightarrow> bool" where
  "occurs_in m [] = (m = [])"
| "occurs_in m (c # cs) = (take (length m) (c # cs) = m \<or> occurs_in m cs)"

definition contains_shape :: "code_unit list \<Rightarrow> bool" where
  "contains_shape url = (\<exists>mk \<in> set claimed_shapes. occurs_in mk url)"

subsection \<open>The markers of the pattern\<close>

text \<open>
  What the pattern itself accepts. A marker is a text one of its six branches accepts;
  it occurs in a URL at a position that \<open>^.*\<close> can reach, that is after a prefix free
  of line terminators. The rightmost token of a URL is the text that follows the
  rightmost occurrence of a marker, up to the first of \<open>#\<close>, \<open>&\<close>, \<open>?\<close> or to the
  end of the URL.
\<close>

definition pattern_marker :: "code_unit list \<Rightarrow> bool" where
  "pattern_marker m =
     ((\<exists>c. dot_class c \<and> m = units ''youtu'' @ [c] @ units ''be/'') \<or> m = units ''v/'' \<or>
      (\<exists>w. word_class w \<and> m = units ''u/'' @ [w] @ units ''/'') \<or> m = units ''embed/'' \<or>
      m = units ''watch?v='' \<or> m = units ''&v='')"

definition marker_occurs :: "code_unit list \<Rightarrow> code_unit list \<Rightarrow> code_unit list \<Rightarrow> bool" where
  "marker_occurs url pre m =
     (pattern_marker m \<and> (\<exists>rest. url = pre @ m @ rest) \<and> (\<forall>c \<in> set pre. dot_class c))"

definition rightmost_token :: "code_unit list \<Rightarrow> code_unit list \<Rightarrow> bool" where
  "rightmost_token url tok =
     (\<exists>pre m rest.
        url = pre @ m @ tok @ rest \<and> marker_occurs url pre m \<and>
        (\<forall>pre' m'. marker_occurs url pre' m' \<longrightarrow> length pre' \<le> length pre) \<and>
        (\<forall>c \<in> set tok. token_class c) \<and> (rest = [] \<or> \<not> token_class (hd rest)))"

definition has_marker :: "code_unit list \<Rightarrow> bool" where
  "has_marker url = (\<exists>pre m. marker_occurs url pre m)"

section \<open>The platform\<close>

text \<open>
  What the handlers call and do not define. \<open>fetch\<close> answers a request for a URL,
  given the URLs requested before it in the same retrieval, with a rejection or a
  response; reading the body of a response (\<open>response.blob()\<close>) may reject as well.
  \<open>readAsDataURL\<close> is the \<open>result\<close> of a \<open>FileReader\<close> at \<open>loadend\<close>, which
  the code takes to be a string. \<open>toLocaleTimeString\<close> is the formatted wall-clock
  time at that moment.
\<close>

datatype response = Response (ok: bool) (read_blob: "js_error + blob")

datatype fetch_result = Rejects js_error | Resolves response

record platform =
  fetch :: "string list \<Rightarrow> string \<Rightarrow> fetch_result"
  encodeURIComponent :: "string \<Rightarrow> string"
  readAsDataURL :: "blob \<Rightarrow> string"
  toLocaleTimeString :: string

text \<open>\<open>(reader.result as string).split(',')[1]\<close>\<close>

definition base64String :: "platform \<Rightarrow> blob \<Rightarrow> string option" where
  "base64String pf b = js_index (js_split CHR '','' (readAsDataURL pf b)) 1"

section \<open>The component \<open>AudioInput\<close>\<close>

text \<open>
  The state is the component's React state and refs, the platform's interval timers,
  and the trace of the calls the handlers make to the outside, in the order they are
  made. A \<open>MediaRecorder\<close> is its \<open>state\<close> and the tracks of the stream it records;
  \<open>mediaRecorderRef\<close> holds the recorder the component can reach. A handler reads
  the refs as they are when it is called, and a handler that awaits runs to its end
  before the next one starts; the events a recorder fires because of \<open>stop()\<close> are
  handled before any other handler runs. The tab selection and the console output play
  no part in the handlers and are left out.
\<close>

datatype recording_state = Inactive | Recording | Paused

record media_recorder =
  rstate :: recording_state
  stream :: "nat list"

datatype effect =
    Alert string
  | Fetch string
  | ReadAsDataURL blob
  | OnAudioReady AudioState
  | TrackStop nat
  | ClearInterval nat

record session =
  isRecording :: bool
  recordingTime :: nat
  youtubeUrl :: string
  isFetchingYT :: bool
  mediaRecorderRef :: "media_recorder option"
  timerRef :: "nat option"
  chunksRef :: "blob list"
  intervals :: "nat set"
  lastTimerId :: nat
  trace :: "effect list"

definition emit :: "effect list \<Rightarrow> session \<Rightarrow> session" where
  "emit es s = s\<lparr>trace := trace s @ es\<rparr>"

text \<open>\<open>window.setInterval\<close> hands out positive ids; \<open>clearInterval\<close> cancels one.\<close>

definition clearInterval :: "nat \<Rightarrow> session \<Rightarrow> session" where
  "clearInterval i s = emit [ClearInterval i] (s\<lparr>intervals := intervals s - {i}\<rparr>)"

text \<open>\<open>if (timerRef.current) clearInterval(timerRef.current)\<close>: \<open>null\<close> and 0 are falsy.\<close>

definition clear_timer :: "session \<Rightarrow> session" where
  "clear_timer s =
     (case timerRef s of
        Some i \<Rightarrow> if i \<noteq> 0 then clearInterval i s else s
      | None \<Rightarrow> s)"

subsection \<open>File acquisition: \<open>handleFileUpload\<close>\<close>

definition handleFileUpload :: "platform \<Rightarrow> jsfile list \<Rightarrow> session \<Rightarrow> session" where
  "handleFileUpload pf files s =
     (case js_index files 0 of
        None \<Rightarrow> s
      | Some f \<Rightarrow>
          if \<not> startsWith (file_type f) ''audio/''
          then emit [Alert ''Please upload a valid audio file.''] s
          else emit [ReadAsDataURL (file_blob f),
                     OnAudioReady \<lparr>file_obj = Some f,
                                   base64 = base64String pf (file_blob f),
                                   mimeType = file_type f,
                                   duration = None,
                                   name = Some (file_name f)\<rparr>] s)"

subsection \<open>Live capture: \<open>startRecording\<close>, the recorder's handlers, \<open>stopRecording\<close>\<close>

text \<open>
  What the platform does with the three calls in the \<open>try\<close> block of
  \<open>startRecording\<close>: \<open>getUserMedia\<close> rejects, the constructor of the recorder
  throws, \<open>start()\<close> throws, or the recorder records the stream with the given tracks.
\<close>

datatype microphone =
    GetUserMediaRejects js_error
  | ConstructorThrows "nat list" js_error
  | StartThrows "nat list" js_error
  | Granted "nat list"

definition mic_alert :: effect where
  "mic_alert = Alert ''Could not access microphone. Please ensure permissions are granted.''"

definition startRecording :: "microphone \<Rightarrow> session \<Rightarrow> session" where
  "startRecording mic s =
     (case mic of
        GetUserMediaRejects e \<Rightarrow> emit [mic_alert] s
      | ConstructorThrows tracks e \<Rightarrow> emit [mic_alert] s
      | StartThrows tracks e \<Rightarrow>
          emit [mic_alert]
            (s\<lparr>mediaRecorderRef := Some \<lparr>rstate = Inactive, stream = tracks\<rparr>,
               chunksRef := []\<rparr>)
      | Granted tracks \<Rightarrow>
          (let s1 = s\<lparr>mediaRecorderRef := Some \<lparr>rstate = Inactive, stream = tracks\<rparr>\<rparr>;
               s2 = s1\<lparr>chunksRef := []\<rparr>;
               s3 = s2\<lparr>mediaRecorderRef := Some \<lparr>rstate = Recording, stream = tracks\<rparr>\<rparr>;
               s4 = s3\<lparr>isRecording := True\<rparr>;
               s5 = s4\<lparr>recordingTime := 0\<rparr>;
               i = Suc (lastTimerId s5)
           in s5\<lparr>timerRef := Some i, intervals := insert i (intervals s5),
                 lastTimerId := i\<rparr>))"

text \<open>The interval's callback.\<close>

definition tick :: "session \<Rightarrow> session" where
  "tick s = s\<lparr>recordingTime := recordingTime s + 1\<rparr>"

text \<open>\<open>mediaRecorder.ondataavailable\<close> and \<open>mediaRecorder.onstop\<close>; the latter closes
  over the stream of its own recorder.\<close>

definition ondataavailable :: "blob \<Rightarrow> session \<Rightarrow> session" where
  "ondataavailable d s =
     (if blob_size d > 0 then s\<lparr>chunksRef := chunksRef s @ [d]\<rparr> else s)"

definition onstop :: "platform \<Rightarrow> nat list \<Rightarrow> session \<Rightarrow> session" where
  "onstop pf tracks s =
     (let b = new_Blob (chunksRef s) ''audio/webm''
      in emit ([ReadAsDataURL b] @ map TrackStop tracks @
               [OnAudioReady \<lparr>file_obj = None,
                              base64 = base64String pf b,
                              mimeType = ''audio/webm'',
                              duration = None,
                              name = Some (''Recording_'' @ toLocaleTimeString pf @ ''.webm'')\<rparr>]) s)"

text \<open>
  \<open>MediaRecorder.stop()\<close> does nothing on an inactive recorder. Otherwise it makes the
  recorder inactive and returns; the recorder then fires \<open>dataavailable\<close> with the data
  it has gathered since the last such event, and \<open>stop\<close>.
\<close>

definition inactivate :: "media_recorder \<Rightarrow> media_recorder" where
  "inactivate r = r\<lparr>rstate := Inactive\<rparr>"

definition stop_events :: "platform \<Rightarrow> blob \<Rightarrow> nat list \<Rightarrow> session \<Rightarrow> session" where
  "stop_events pf gathered tracks s = onstop pf tracks (ondataavailable gathered s)"

text \<open>
  \<open>stopRecording\<close> closes over \<open>isRecording\<close>, a constant of the render that created
  the handler: \<open>rendered\<close> is that value. Calling the same handler again finds the same
  value, whatever the state has become.
\<close>

definition stopRecording :: "bool \<Rightarrow> platform \<Rightarrow> blob \<Rightarrow> session \<Rightarrow> session" where
  "stopRecording rendered pf gathered s =
     (case mediaRecorderRef s of
        None \<Rightarrow> s
      | Some r \<Rightarrow>
          if rendered
          then (let s1 = s\<lparr>mediaRecorderRef := Some (inactivate r)\<rparr>;
                    s2 = s1\<lparr>isRecording := False\<rparr>;
                    s3 = clear_timer s2
                in if rstate r = Inactive then s3
                   else stop_events pf gathered (stream r) s3)
          else s)"

text \<open>The cleanup of the effect hook, run when the component unmounts.\<close>

definition unmount :: "platform \<Rightarrow> blob \<Rightarrow> session \<Rightarrow> session" where
  "unmount pf gathered s =
     (let s1 = clear_timer s
      in case mediaRecorderRef s1 of
           None \<Rightarrow> s1
         | Some r \<Rightarrow>
             if rstate r = Recording
             then stop_events pf gathered (stream r)
                    (s1\<lparr>mediaRecorderRef := Some (inactivate r)\<rparr>)
             else s1)"

subsection \<open>Remote retrieval: \<open>handleYoutubeFetch\<close>\<close>

definition instances :: "string list" where
  "instances =
     [''https://inv.nadeko.net'',
      ''https://invidious.jing.rocks'',
      ''https://vid.uff.oulu.fi'',
      ''https://invidious.nerdvpn.de'']"

definition targetUrl :: "string \<Rightarrow> string \<Rightarrow> string" where
  "targetUrl instance videoId =
     instance @ ''/latest_version?id='' @ videoId @ ''&itag=140&local=true''"

definition proxyUrl :: "platform \<Rightarrow> string \<Rightarrow> string" where
  "proxyUrl pf target = ''https://corsproxy.io/?'' @ encodeURIComponent pf target"

text \<open>
  How one run of the loop body ends: with \<open>break\<close> and a blob, at the end of the outer
  \<open>try\<close> block with nothing assigned, or in the outer \<open>catch\<close>, which assigns \<open>error\<close>.
  Each function returns, with that, the URLs requested so far.
\<close>

datatype attempt = Break blob | Fallthrough | Caught js_error

text \<open>The handler \<open>catch (directError)\<close>: the same target through the relay.\<close>

definition relay :: "platform \<Rightarrow> string \<Rightarrow> string list \<Rightarrow> attempt \<times> string list" where
  "relay pf target calls =
     (let p = proxyUrl pf target
      in case fetch pf calls p of
           Rejects e \<Rightarrow> (Caught e, calls @ [p])
         | Resolves r \<Rightarrow>
             if ok r
             then (case read_blob r of
                     Inr b \<Rightarrow> (Break b, calls @ [p])
                   | Inl e \<Rightarrow> (Caught e, calls @ [p]))
             else (Fallthrough, calls @ [p]))"

definition try_instance ::
  "platform \<Rightarrow> string \<Rightarrow> string \<Rightarrow> string list \<Rightarrow> attempt \<times> string list" where
  "try_instance pf videoId instance calls =
     (let t = targetUrl instance videoId
      in case fetch pf calls t of
           Rejects e \<Rightarrow> relay pf t (calls @ [t])
         | Resolves r \<Rightarrow>
             if ok r
             then (case read_blob r of
                     Inr b \<Rightarrow> (Break b, calls @ [t])
                   | Inl e \<Rightarrow> relay pf t (calls @ [t]))
             else (Fallthrough, calls @ [t]))"

record retrieval =
  blob :: "blob option"
  error :: "js_error option"
  calls :: "string list"

fun try_instances :: "platform \<Rightarrow> string \<Rightarrow> string list \<Rightarrow> retrieval \<Rightarrow> retrieval" where
  "try_instances pf videoId [] st = st"
| "try_instances pf videoId (instance # rest) st =
     (case try_instance pf videoId instance (calls st) of
        (Break b, cs) \<Rightarrow> st\<lparr>blob := Some b, calls := cs\<rparr>
      | (Fallthrough, cs) \<Rightarrow> try_instances pf videoId rest (st\<lparr>calls := cs\<rparr>)
      | (Caught e, cs) \<Rightarrow>
          try_instances pf videoId rest (st\<lparr>error := Some e, calls := cs\<rparr>))"

definition handleYoutubeFetch :: "platform \<Rightarrow> session \<Rightarrow> session" where
  "handleYoutubeFetch pf s =
     (case getYoutubeVideoId (youtubeUrl s) of
        None \<Rightarrow> emit [Alert ''Invalid YouTube URL''] s
      | Some videoId \<Rightarrow>
          if videoId = [] then emit [Alert ''Invalid YouTube URL''] s
          else
            (let s1 = s\<lparr>isFetchingYT := True\<rparr>;
                 st = try_instances pf videoId instances
                        \<lparr>blob = None, error = None, calls = []\<rparr>;
                 s2 = emit (map Fetch (calls st)) s1;
                 failed = emit [Alert ''Could not fetch audio. Please try another video or download it manually.'']
                            (s2\<lparr>isFetchingYT := False\<rparr>)
             in case blob st of
                  None \<Rightarrow> failed
                | Some b \<Rightarrow>
                    if blob_size b > 0
                    then (if blob_size b > 20 * 1024 * 1024
                          then emit [Alert ''Video audio is too large (>20MB). Please use a shorter video.'']
                                 (s2\<lparr>isFetchingYT := False\<rparr>)
                          else (emit [ReadAsDataURL b,
                                      OnAudioReady \<lparr>file_obj = None,
                                                    base64 = base64String pf b,
                                                    mimeType = ''audio/mp4'',
                                                    duration = None,
                                                    name = Some (''YouTube_'' @ videoId @ ''.m4a'')\<rparr>] s2)
                                 \<lparr>isFetchingYT := False\<rparr>)
                    else failed))"

section \<open>The application \<open>App\<close> and the transcription service\<close>

text \<open>
  \<open>generateContent\<close> is the model's answer to a request with the given content type
  and data: a rejection, or a response whose \<open>text\<close> may be absent. The prompt, the
  model name and the temperature of the request are constants and are left out.
  \<open>requests\<close> lists the calls made to \<open>transcribeAudio\<close>, as (data, content type).
\<close>

type_synonym generateContent = "string \<Rightarrow> string \<Rightarrow> js_error + string option"

definition transcribeAudio :: "generateContent \<Rightarrow> string \<Rightarrow> string \<Rightarrow> js_error + string" where
  "transcribeAudio gen base64Audio mime =
     (case gen mime base64Audio of
        Inl e \<Rightarrow> Inl e
      | Inr text \<Rightarrow>
          (case text of
             Some t \<Rightarrow>
               if t \<noteq> [] then Inr t
               else Inl (JsError (Some ''No text returned from model.''))
           | None \<Rightarrow> Inl (JsError (Some ''No text returned from model.''))))"

record app =
  status :: AppStatus
  audioData :: "AudioState option"
  transcript :: string
  errorMsg :: "string option"
  requests :: "(string \<times> string) list"

definition handleAudioReady :: "AudioState \<Rightarrow> app \<Rightarrow> app" where
  "handleAudioReady audio a =
     a\<lparr>audioData := Some audio, transcript := [], errorMsg := None, status := IDLE\<rparr>"

text \<open>\<open>error.message || "Failed to transcribe audio. Please try again."\<close>\<close>

definition error_text :: "js_error \<Rightarrow> string" where
  "error_text e =
     (case message e of
        Some m \<Rightarrow> if m \<noteq> [] then m else ''Failed to transcribe audio. Please try again.''
      | None \<Rightarrow> ''Failed to transcribe audio. Please try again.'')"

text \<open>The guard \<open>!audioData?.base64 || !audioData?.mimeType\<close>: \<open>null\<close>, \<open>undefined\<close>
  and the empty string are falsy.\<close>

definition handleTranscribe :: "generateContent \<Rightarrow> app \<Rightarrow> app" where
  "handleTranscribe gen a =
     (case audioData a of
        None \<Rightarrow> a
      | Some audio \<Rightarrow>
          (case base64 audio of
             None \<Rightarrow> a
           | Some b \<Rightarrow>
               if b = [] \<or> mimeType audio = [] then a
               else
                 (let a1 = a\<lparr>status := PROCESSING\<rparr>;
                      a2 = a1\<lparr>errorMsg := None\<rparr>;
                      a3 = a2\<lparr>requests := requests a2 @ [(b, mimeType audio)]\<rparr>
                  in case transcribeAudio gen b (mimeType audio) of
                       Inr text \<Rightarrow> a3\<lparr>transcript := text, status := COMPLETED\<rparr>
                     | Inl e \<Rightarrow> a3\<lparr>status := ERROR, errorMsg := Some (error_text e)\<rparr>)))"

definition handleReset :: "app \<Rightarrow> app" where
  "handleReset a =
     a\<lparr>audioData := None, transcript := [], status := IDLE, errorMsg := None\<rparr>"

section \<open>Initial states\<close>

text \<open>The initial values of the hooks in \<open>AudioInput\<close> and in \<open>App\<close>.\<close>

definition initial_session :: session where
  "initial_session =
     \<lparr>isRecording = False, recordingTime = 0, youtubeUrl = [], isFetchingYT = False,
      mediaRecorderRef = None, timerRef = None, chunksRef = [],
      intervals = {}, lastTimerId = 0, trace = []\<rparr>"

definition initial_app :: app where
  "initial_app =
     \<lparr>status = IDLE, audioData = None, transcript = [], errorMsg = None, requests = []\<rparr>"

section \<open>Vocabulary of the properties\<close>

text \<open>
  An attempt on a URL throws when \<open>fetch\<close> rejects or when the response is successful
  and reading its body rejects; it yields a blob when the response is successful and its
  body is read.
\<close>

definition attempt_throws :: "fetch_result \<Rightarrow> bool" where
  "attempt_throws x =
     (case x of
        Rejects e \<Rightarrow> True
      | Resolves r \<Rightarrow> ok r \<and> isl (read_blob r))"

definition yields :: "fetch_result \<Rightarrow> blob option" where
  "yields x =
     (case x of
        Rejects e \<Rightarrow> None
      | Resolves r \<Rightarrow>
          if ok r then (case read_blob r of Inr b \<Rightarrow> Some b | Inl e \<Rightarrow> None) else None)"

text \<open>The retrieval starts with no blob, no error and no request made.\<close>

definition no_retrieval :: retrieval where
  "no_retrieval = \<lparr>blob = None, error = None, calls = []\<rparr>"

text \<open>Delivering chunks to \<open>ondataavailable\<close> one after the other.\<close>

definition deliver :: "blob list \<Rightarrow> session \<Rightarrow> session" where
  "deliver chunks s = fold ondataavailable chunks s"


definition payloads :: "effect list \<Rightarrow> AudioState list" where
  "payloads es = concat (map (\<lambda>e. case e of OnAudioReady p \<Rightarrow> [p] | _ \<Rightarrow> []) es)"

definition encodings :: "effect list \<Rightarrow> blob list" where
  "encodings es = concat (map (\<lambda>e. case e of ReadAsDataURL b \<Rightarrow> [b] | _ \<Rightarrow> []) es)"

section \<open>Concrete inputs\<close>

definition bytes_of_size :: "nat \<Rightarrow> blob" where
  "bytes_of_size n = \<lparr>blob_data = replicate n 0, blob_type = ''audio/mp4''\<rparr>"

text \<open>A recorded chunk of \<open>n\<close> bytes, each of value \<open>x\<close>.\<close>

definition chunk :: "nat \<Rightarrow> byte \<Rightarrow> blob" where
  "chunk n x = \<lparr>blob_data = replicate n x, blob_type = ''audio/webm''\<rparr>"

definition empty_chunk :: blob where
  "empty_chunk = \<lparr>blob_data = [], blob_type = ''audio/webm''\<rparr>"

definition sample_dataURL :: "blob \<Rightarrow> string" where
  "sample_dataURL b = ''data:'' @ blob_type b @ '';base64,QUJD''"

text \<open>A network on which every request is answered with the same successful body.\<close>

definition serving :: "blob \<Rightarrow> platform" where
  "serving b =
     \<lparr>fetch = (\<lambda>cs url. Resolves (Response True (Inr b))),
      encodeURIComponent = (\<lambda>u. u),
      readAsDataURL = sample_dataURL,
      toLocaleTimeString = ''10:15:00''\<rparr>"

text \<open>A network on which the first endpoint is unreachable, directly and through the
  relay, and every other request is answered.\<close>

definition first_down :: "string \<Rightarrow> blob \<Rightarrow> platform" where
  "first_down A b =
     \<lparr>fetch = (\<lambda>cs url.
        if url = targetUrl A ''dQw4w9WgXcQ''
        then Rejects (JsError (Some ''Failed to fetch''))
        else if url = ''https://corsproxy.io/?'' @ targetUrl A ''dQw4w9WgXcQ''
        then Resolves (Response False (Inr empty_chunk))
        else Resolves (Response True (Inr b))),
      encodeURIComponent = (\<lambda>u. u),
      readAsDataURL = sample_dataURL,
      toLocaleTimeString = ''10:15:00''\<rparr>"

text \<open>A network on which the first endpoint answers with a non-success status and every
  other request is answered.\<close>

definition first_refuses :: "string \<Rightarrow> blob \<Rightarrow> platform" where
  "first_refuses A b =
     \<lparr>fetch = (\<lambda>cs url.
        if url = targetUrl A ''dQw4w9WgXcQ''
        then Resolves (Response False (Inr empty_chunk))
        else Resolves (Response True (Inr b))),
      encodeURIComponent = (\<lambda>u. u),
      readAsDataURL = sample_dataURL,
      toLocaleTimeString = ''10:15:00''\<rparr>"

text \<open>A network on which the first endpoint is reachable through the relay only.\<close>

definition relay_only :: "string \<Rightarrow> blob \<Rightarrow> platform" where
  "relay_only A b =
     \<lparr>fetch = (\<lambda>cs url.
        if url = targetUrl A ''dQw4w9WgXcQ''
        then Rejects (JsError (Some ''Failed to fetch''))
        else Resolves (Response True (Inr b))),
      encodeURIComponent = (\<lambda>u. u),
      readAsDataURL = sample_dataURL,
      toLocaleTimeString = ''10:15:00''\<rparr>"

definition silent_model :: generateContent where
  "silent_model mime data = Inr (Some ''[Audio is unclear]'')"

section \<open>Properties of the identifier extraction\<close>

subsection \<open>The matchers\<close>

lemma chr_m_Some: "(chr_m p k s = Some x) = (\<exists>c r. s = c # r \<and> p c \<and> k r = Some x)"
  by (cases s) auto

lemma lit_m_Some: "(lit_m l k s = Some x) = (\<exists>r. s = l @ r \<and> k r = Some x)"
  by (induction l arbitrary: s) (auto simp add: chr_m_Some)

lemma alt_m_Some: "alt_m ms k s = Some x \<Longrightarrow> \<exists>m \<in> set ms. m k s = Some x"
  by (induction ms) (auto split: option.splits)

lemma shapes_sound:
  assumes "alt_m shapes k s = Some x"
  shows "\<exists>m r. pattern_marker m \<and> s = m @ r \<and> k r = Some x"
proof -
  from alt_m_Some[OF assms] obtain f where f: "f \<in> set shapes" "f k s = Some x" by blast
  from f(1) consider
      "f = lit_m (units ''youtu'') \<circ> chr_m dot_class \<circ> lit_m (units ''be/'')" | "f = lit_m (units ''v/'')"
    | "f = lit_m (units ''u/'') \<circ> chr_m word_class \<circ> lit_m (units ''/'')" | "f = lit_m (units ''embed/'')"
    | "f = lit_m (units ''watch?v='')" | "f = lit_m (units ''&v='')"
    by (auto simp add: shapes_def)
  then show ?thesis
  proof cases
    case 1
    with f(2) obtain c r where "s = units ''youtu'' @ [c] @ units ''be/'' @ r" "dot_class c" "k r = Some x"
      by (auto simp add: lit_m_Some chr_m_Some)
    then have "pattern_marker (units ''youtu'' @ [c] @ units ''be/'')" "s = (units ''youtu'' @ [c] @ units ''be/'') @ r" "k r = Some x"
      by (auto simp add: pattern_marker_def)
    then show ?thesis by blast
  next
    case 2
    with f(2) obtain r where "s = units ''v/'' @ r" "k r = Some x" by (auto simp add: lit_m_Some chr_m_Some)
    moreover have "pattern_marker (units ''v/'')" by (simp add: pattern_marker_def)
    ultimately show ?thesis by blast
  next
    case 3
    with f(2) obtain c r where "s = units ''u/'' @ [c] @ units ''/'' @ r" "word_class c" "k r = Some x"
      by (auto simp add: lit_m_Some chr_m_Some)
    then have "pattern_marker (units ''u/'' @ [c] @ units ''/'')" "s = (units ''u/'' @ [c] @ units ''/'') @ r" "k r = Some x"
      by (auto simp add: pattern_marker_def)
    then show ?thesis by blast
  next
    case 4
    with f(2) obtain r where "s = units ''embed/'' @ r" "k r = Some x" by (auto simp add: lit_m_Some chr_m_Some)
    moreover have "pattern_marker (units ''embed/'')" by (simp add: pattern_marker_def)
    ultimately show ?thesis by blast
  next
    case 5
    with f(2) obtain r where "s = units ''watch?v='' @ r" "k r = Some x" by (auto simp add: lit_m_Some chr_m_Some)
    moreover have "pattern_marker (units ''watch?v='')" by (simp add: pattern_marker_def)
    ultimately show ?thesis by blast
  next
    case 6
    with f(2) obtain r where "s = units ''&v='' @ r" "k r = Some x" by (auto simp add: lit_m_Some chr_m_Some)
    moreover have "pattern_marker (units ''&v='')" by (simp add: pattern_marker_def)
    ultimately show ?thesis by blast
  qed
qed

lemma shapes_complete:
  assumes "pattern_marker m"
  shows "alt_m shapes k (m @ r) = k r"
  using assms unfolding pattern_marker_def
  by (cases "k r") (auto simp add: shapes_def units_def)

lemma star_m_total:
  assumes "\<And>t. k t \<noteq> None"
  shows "star_m p k s = k (dropWhile p s)"
proof (induction s)
  case Nil
  show ?case by simp
next
  case (Cons a s)
  obtain y where "k (dropWhile p s) = Some y"
    using assms[of "dropWhile p s"] by auto
  with Cons show ?case by simp
qed

lemma take_takeWhile: "take (length s - length (dropWhile p s)) s = takeWhile p s"
  by (induction s) (auto simp add: Suc_diff_le length_dropWhile_le)

lemma token_cont:
  "star_m token_class
     (\<lambda>s3. star_m dot_class (\<lambda>s4. Some (take (length s2 - length s3) s2)) s3) s2
   = Some (takeWhile token_class s2)"
proof -
  have "star_m dot_class (\<lambda>s4. Some (take (length s2 - length s3) s2)) s3
          = Some (take (length s2 - length s3) s2)" for s3
    by (simp add: star_m_total)
  then show ?thesis
    by (simp add: star_m_total take_takeWhile)
qed

lemma star_m_None:
  "(\<And>pre suf. s = pre @ suf \<Longrightarrow> \<forall>c \<in> set pre. p c \<Longrightarrow> k suf = None) \<Longrightarrow> star_m p k s = None"
proof (induction s)
  case Nil
  then show ?case by simp
next
  case (Cons c cs)
  have here: "k (c # cs) = None" using Cons.prems[of "[]" "c # cs"] by simp
  show ?case
  proof (cases "p c")
    case True
    have "star_m p k cs = None"
    proof (rule Cons.IH)
      fix pre suf assume "cs = pre @ suf" "\<forall>c \<in> set pre. p c"
      with True show "k suf = None" using Cons.prems[of "c # pre" suf] by simp
    qed
    with here True show ?thesis by simp
  next
    case False
    with here show ?thesis by simp
  qed
qed

lemma star_m_last:
  assumes "\<forall>c \<in> set pre. p c" and "k suf = Some x"
      and "\<And>pre' suf'. pre @ suf = pre' @ suf' \<Longrightarrow> \<forall>c \<in> set pre'. p c \<Longrightarrow>
             length pre < length pre' \<Longrightarrow> k suf' = None"
  shows "star_m p k (pre @ suf) = Some x"
  using assms
proof (induction pre)
  case Nil
  show ?case
  proof (cases suf)
    case Nil
    with Nil.prems(2) show ?thesis by simp
  next
    case (Cons c cs)
    show ?thesis
    proof (cases "p c")
      case True
      have "star_m p k cs = None"
      proof (rule star_m_None)
        fix pre2 suf2 assume "cs = pre2 @ suf2" "\<forall>c \<in> set pre2. p c"
        with True Cons show "k suf2 = None" using Nil.prems(3)[of "c # pre2" suf2] by simp
      qed
      with True Cons Nil.prems(2) show ?thesis by simp
    next
      case False
      with Cons Nil.prems(2) show ?thesis by simp
    qed
  qed
next
  case (Cons a pre)
  have "star_m p k (pre @ suf) = Some x"
  proof (rule Cons.IH)
    show "\<forall>c \<in> set pre. p c" using Cons.prems(1) by simp
    show "k suf = Some x" by fact
    fix pre' suf' assume "pre @ suf = pre' @ suf'" "\<forall>c \<in> set pre'. p c" "length pre < length pre'"
    then show "k suf' = None" using Cons.prems(1) Cons.prems(3)[of "a # pre'" suf'] by simp
  qed
  with Cons.prems(1) show ?case by simp
qed

lemma star_m_None_split:
  "star_m p k (pre @ suf) = None \<Longrightarrow> \<forall>c \<in> set pre. p c \<Longrightarrow> k suf = None"
proof (induction pre)
  case Nil
  then show ?case by (cases suf) (auto split: option.splits if_splits)
next
  case (Cons a pre)
  then show ?case by (auto split: option.splits if_splits)
qed

lemma star_m_Some:
  assumes "star_m p k s = Some x"
  shows "\<exists>pre suf. s = pre @ suf \<and> (\<forall>c \<in> set pre. p c) \<and> k suf = Some x \<and>
           (\<forall>pre' suf'. s = pre' @ suf' \<and> (\<forall>c \<in> set pre'. p c) \<and> length pre < length pre'
               \<longrightarrow> k suf' = None)"
  using assms
proof (induction s)
  case Nil
  then show ?case by simp
next
  case (Cons c cs)
  show ?case
  proof (cases "p c \<and> star_m p k cs \<noteq> None")
    case True
    with Cons.prems have "star_m p k cs = Some x" by (auto split: option.splits)
    from Cons.IH[OF this] obtain pre suf where
      ps: "cs = pre @ suf" "\<forall>c \<in> set pre. p c" "k suf = Some x"
          "\<forall>pre' suf'. cs = pre' @ suf' \<and> (\<forall>c \<in> set pre'. p c) \<and> length pre < length pre'
              \<longrightarrow> k suf' = None"
      by blast
    have later: "k suf' = None"
      if h: "c # cs = pre' @ suf' \<and> (\<forall>c \<in> set pre'. p c) \<and> length (c # pre) < length pre'"
      for pre' suf'
    proof -
      from h obtain q where "pre' = c # q" by (cases pre') auto
      with h ps(4) show ?thesis by auto
    qed
    show ?thesis
    proof (intro exI conjI allI impI)
      show "c # cs = (c # pre) @ suf" using ps(1) by simp
      show "\<forall>a \<in> set (c # pre). p a" using ps(2) True by simp
      show "k suf = Some x" by fact
      fix pre' suf'
      assume "c # cs = pre' @ suf' \<and> (\<forall>c \<in> set pre'. p c) \<and> length (c # pre) < length pre'"
      then show "k suf' = None" by (rule later)
    qed
  next
    case False
    with Cons.prems have here: "k (c # cs) = Some x" by (auto split: option.splits if_splits)
    have later: "k suf' = None"
      if h: "c # cs = pre' @ suf' \<and> (\<forall>c \<in> set pre'. p c) \<and> length ([]::code_unit list) < length pre'"
      for pre' suf'
    proof -
      from h obtain q where "pre' = c # q" by (cases pre') auto
      with h have "p c" and cs: "cs = q @ suf'" and allq: "\<forall>c \<in> set q. p c" by auto
      with False have "star_m p k (q @ suf') = None" by simp
      from star_m_None_split[OF this allq] show ?thesis .
    qed
    show ?thesis
    proof (intro exI conjI allI impI)
      show "c # cs = [] @ (c # cs)" by simp
      show "\<forall>a \<in> set ([]::code_unit list). p a" by simp
      show "k (c # cs) = Some x" by fact
      fix pre' suf'
      assume "c # cs = pre' @ suf' \<and> (\<forall>c \<in> set pre'. p c) \<and> length ([]::code_unit list) < length pre'"
      then show "k suf' = None" by (rule later)
    qed
  qed
qed

subsection \<open>The match is the token after the rightmost marker\<close>

lemma regExp_match_star:
  "regExp_match url =
     star_m dot_class (alt_m shapes (\<lambda>s2. Some (takeWhile token_class s2))) url"
  by (simp add: regExp_match_def token_cont)

lemma takeWhile_token:
  "\<forall>c \<in> set tok. P c \<Longrightarrow> rest = [] \<or> \<not> P (hd rest) \<Longrightarrow> takeWhile P (tok @ rest) = tok"
  by (cases rest) auto

lemma rightmost_token_match:
  assumes "rightmost_token url tok"
  shows "regExp_match url = Some tok"
proof -
  let ?K = "\<lambda>s2. Some (takeWhile token_class s2)"
  from assms obtain pre m rest where
    url: "url = pre @ m @ tok @ rest" and occ: "marker_occurs url pre m" and
    last: "\<And>pre' m'. marker_occurs url pre' m' \<Longrightarrow> length pre' \<le> length pre" and
    tok: "\<forall>c \<in> set tok. token_class c" "rest = [] \<or> \<not> token_class (hd rest)"
    unfolding rightmost_token_def by blast
  from occ have m: "pattern_marker m" and pre: "\<forall>c \<in> set pre. dot_class c"
    by (simp_all add: marker_occurs_def)
  have here: "alt_m shapes ?K (m @ tok @ rest) = Some tok"
    using shapes_complete[OF m, of ?K "tok @ rest"] takeWhile_token[OF tok] by simp
  have "star_m dot_class (alt_m shapes ?K) (pre @ m @ tok @ rest) = Some tok"
  proof (rule star_m_last[of pre dot_class "alt_m shapes ?K" "m @ tok @ rest" tok, OF pre here])
    fix pre' suf'
    assume split: "pre @ m @ tok @ rest = pre' @ suf'" and dots: "\<forall>c \<in> set pre'. dot_class c"
       and later: "length pre < length pre'"
    show "alt_m shapes ?K suf' = None"
    proof (rule ccontr)
      assume "alt_m shapes ?K suf' \<noteq> None"
      then obtain y where "alt_m shapes ?K suf' = Some y" by auto
      from shapes_sound[OF this] obtain m' r' where "pattern_marker m'" "suf' = m' @ r'" by blast
      with split dots url have "marker_occurs url pre' m'"
        by (auto simp add: marker_occurs_def)
      from last[OF this] later show False by simp
    qed
  qed
  with url show ?thesis by (simp add: regExp_match_star)
qed

lemma match_rightmost_token:
  assumes "regExp_match url = Some tok"
  shows "rightmost_token url tok"
proof -
  let ?K = "\<lambda>s2. Some (takeWhile token_class s2)"
  from assms have "star_m dot_class (alt_m shapes ?K) url = Some tok"
    by (simp add: regExp_match_star)
  from star_m_Some[OF this] obtain pre suf where
    url: "url = pre @ suf" and pre: "\<forall>c \<in> set pre. dot_class c" and
    here: "alt_m shapes ?K suf = Some tok" and
    later: "\<And>pre' suf'. url = pre' @ suf' \<Longrightarrow> \<forall>c \<in> set pre'. dot_class c \<Longrightarrow>
              length pre < length pre' \<Longrightarrow> alt_m shapes ?K suf' = None"
    by blast
  from shapes_sound[OF here] obtain m r where
    m: "pattern_marker m" and suf: "suf = m @ r" and tok: "tok = takeWhile token_class r"
    by auto
  let ?rest = "dropWhile token_class r"
  have 1: "url = pre @ m @ tok @ ?rest" using url suf tok by simp
  have 2: "marker_occurs url pre m"
    using m pre url suf by (auto simp add: marker_occurs_def)
  have 3: "length pre' \<le> length pre" if occ: "marker_occurs url pre' m'" for pre' m'
  proof (rule ccontr)
    assume "\<not> length pre' \<le> length pre"
    then have lt: "length pre < length pre'" by simp
    from occ obtain rest' where "url = pre' @ m' @ rest'" "pattern_marker m'" "\<forall>c \<in> set pre'. dot_class c"
      by (auto simp add: marker_occurs_def)
    with later[of pre' "m' @ rest'"] lt shapes_complete[of m' ?K rest'] show False by simp
  qed
  have 4: "\<forall>c \<in> set tok. token_class c"
    using tok by (auto dest: set_takeWhileD)
  have 5: "?rest = [] \<or> \<not> token_class (hd ?rest)"
    by (cases "?rest = []") (simp_all add: hd_dropWhile)
  show ?thesis
    unfolding rightmost_token_def using 1 2 3 4 5 by blast
qed

lemma no_marker_no_match:
  assumes "\<not> has_marker url"
  shows "regExp_match url = None"
proof -
  let ?K = "\<lambda>s2. Some (takeWhile token_class s2)"
  have "star_m dot_class (alt_m shapes ?K) url = None"
  proof (rule star_m_None)
    fix pre suf assume split: "url = pre @ suf" and dots: "\<forall>c \<in> set pre. dot_class c"
    show "alt_m shapes ?K suf = None"
    proof (rule ccontr)
      assume "alt_m shapes ?K suf \<noteq> None"
      then obtain y where "alt_m shapes ?K suf = Some y" by auto
      from shapes_sound[OF this] obtain m r where "pattern_marker m" "suf = m @ r" by blast
      with split dots have "marker_occurs url pre m" by (auto simp add: marker_occurs_def)
      with assms show False by (auto simp add: has_marker_def)
    qed
  qed
  then show ?thesis by (simp add: regExp_match_star)
qed

lemma no_match_no_marker:
  assumes "regExp_match url = None"
  shows "\<not> has_marker url"
proof
  let ?K = "\<lambda>s2. Some (takeWhile token_class s2)"
  assume "has_marker url"
  then obtain pre m rest where "url = pre @ m @ rest" "pattern_marker m" "\<forall>c \<in> set pre. dot_class c"
    by (auto simp add: has_marker_def marker_occurs_def)
  moreover from assms have "star_m dot_class (alt_m shapes ?K) url = None"
    by (simp add: regExp_match_star)
  ultimately have "alt_m shapes ?K (m @ rest) = None"
    using star_m_None_split[of dot_class "alt_m shapes ?K" pre "m @ rest"] by simp
  with \<open>pattern_marker m\<close> show False by (simp add: shapes_complete)
qed

lemma marker_has_token: "has_marker url \<longleftrightarrow> (\<exists>tok. rightmost_token url tok)"
proof
  assume "has_marker url"
  then have "regExp_match url \<noteq> None" using no_match_no_marker by blast
  then obtain tok where "regExp_match url = Some tok" by auto
  then show "\<exists>tok. rightmost_token url tok" using match_rightmost_token by blast
next
  assume "\<exists>tok. rightmost_token url tok"
  then show "has_marker url"
    unfolding rightmost_token_def has_marker_def by blast
qed

lemma rightmost_token_unique:
  "rightmost_token url tok \<Longrightarrow> rightmost_token url tok' \<Longrightarrow> tok = tok'"
  using rightmost_token_match[of url tok] rightmost_token_match[of url tok'] by simp



subsection \<open>Strings of 8-bit code units\<close>

lemma chars_units: "chars (units s) = s"
  by (simp add: chars_def units_def comp_def)

lemma units_eq_iff: "units a = units b \<longleftrightarrow> a = b"
  by (metis chars_units)

lemma units_infix:
  assumes "units u = pre @ t @ rest"
  shows "\<exists>t'. t = units t'"
proof -
  from assms obtain a b where "pre = map of_char a" "t @ rest = map of_char b"
    unfolding units_def by (metis map_eq_append_conv)
  then obtain c d where "t = map of_char c"
    by (metis map_eq_append_conv)
  then show ?thesis unfolding units_def by blast
qed

lemma match_infix:
  assumes "regExp_match url = Some tok"
  shows "\<exists>pre rest. url = pre @ tok @ rest"
proof -
  from match_rightmost_token[OF assms] obtain pre m rest where "url = pre @ m @ tok @ rest"
    unfolding rightmost_token_def by blast
  then have "url = (pre @ m) @ tok @ rest" by simp
  then show ?thesis by blast
qed

lemma getYoutubeVideoId_units_8bit:
  "getYoutubeVideoId url = Some tok \<longleftrightarrow> getYoutubeVideoId_units (units url) = Some (units tok)"
proof
  assume "getYoutubeVideoId url = Some tok"
  then obtain t where t: "getYoutubeVideoId_units (units url) = Some t" "chars t = tok"
    by (auto simp add: getYoutubeVideoId_def)
  then have "regExp_match (units url) = Some t"
    by (auto simp add: getYoutubeVideoId_units_def split: option.splits if_splits)
  from match_infix[OF this] units_infix obtain t' where "t = units t'" by blast
  with t show "getYoutubeVideoId_units (units url) = Some (units tok)"
    by (simp add: chars_units)
next
  assume "getYoutubeVideoId_units (units url) = Some (units tok)"
  then show "getYoutubeVideoId url = Some tok"
    by (simp add: getYoutubeVideoId_def chars_units)
qed

lemma getYoutubeVideoId_None:
  "getYoutubeVideoId url = None \<longleftrightarrow> getYoutubeVideoId_units (units url) = None"
  by (simp add: getYoutubeVideoId_def)

lemma eval_regExp:
  "regExp_match (units ''https://www.youtube.com/watch?v=dQw4w9WgXcQ&t=42s'') = Some (units ''dQw4w9WgXcQ'')"
  "regExp_match (units ''https://example.com/audio.mp3'') = None"
  "regExp_match (units ''https://youtu.be/dQw4w9WgX'') = Some (units ''dQw4w9WgX'')"
  "regExp_match (units ''https://youtu.be/dQw4w9WgXcQ?feature=v/'') = Some []"
  "regExp_match (units ''https://example.com/dev/abcdefghijk'') = Some (units ''abcdefghijk'')"
  "regExp_match (0x2028 # units ''https://youtu.be/dQw4w9WgXcQ'') = None"
  by (simp_all add: regExp_match_def shapes_def dot_class_def line_terminator_def token_class_def
        word_class_def units_def)

text \<open>
  Claim C2 as stated fails. A short link with an identifier of 11 characters gives
  nothing when a later parameter ends in \<open>v/\<close>, and also when a line separator
  (U+2028) precedes it; and a URL that contains none of the three shapes gives an
  identifier when its path has a segment ending in \<open>v/\<close>.
\<close>

theorem shapes_as_claimed_counterexample:
  "shape_with_token (units ''https://youtu.be/dQw4w9WgXcQ?feature=v/'')
      (units ''https://'') (units ''youtu.be/'') (units ''dQw4w9WgXcQ'') (units ''?feature=v/'')
   \<and> length (units ''dQw4w9WgXcQ'') = 11
   \<and> getYoutubeVideoId_units (units ''https://youtu.be/dQw4w9WgXcQ?feature=v/'') = None
   \<and> \<not> contains_shape (units ''https://example.com/dev/abcdefghijk'')
   \<and> getYoutubeVideoId_units (units ''https://example.com/dev/abcdefghijk'') = Some (units ''abcdefghijk'')
   \<and> shape_with_token (0x2028 # units ''https://youtu.be/dQw4w9WgXcQ'')
      (0x2028 # units ''https://'') (units ''youtu.be/'') (units ''dQw4w9WgXcQ'') []
   \<and> getYoutubeVideoId_units (0x2028 # units ''https://youtu.be/dQw4w9WgXcQ'') = None"
proof -
  have 1: "shape_with_token (units ''https://youtu.be/dQw4w9WgXcQ?feature=v/'')
      (units ''https://'') (units ''youtu.be/'') (units ''dQw4w9WgXcQ'') (units ''?feature=v/'')"
    by (simp add: shape_with_token_def claimed_shapes_def token_class_def units_def)
  have 2: "length (units ''dQw4w9WgXcQ'') = 11" by (simp add: units_def)
  have 3: "getYoutubeVideoId_units (units ''https://youtu.be/dQw4w9WgXcQ?feature=v/'') = None"
    by (simp add: getYoutubeVideoId_units_def eval_regExp)
  have 4: "\<not> contains_shape (units ''https://example.com/dev/abcdefghijk'')"
    by (simp add: contains_shape_def claimed_shapes_def units_def)
  have 5: "getYoutubeVideoId_units (units ''https://example.com/dev/abcdefghijk'') = Some (units ''abcdefghijk'')"
    by (simp add: getYoutubeVideoId_units_def eval_regExp) (simp add: units_def)
  have 6: "shape_with_token (0x2028 # units ''https://youtu.be/dQw4w9WgXcQ'')
      (0x2028 # units ''https://'') (units ''youtu.be/'') (units ''dQw4w9WgXcQ'') []"
    by (simp add: shape_with_token_def claimed_shapes_def token_class_def units_def)
  have 7: "getYoutubeVideoId_units (0x2028 # units ''https://youtu.be/dQw4w9WgXcQ'') = None"
    by (simp add: getYoutubeVideoId_units_def eval_regExp)
  from 1 2 3 4 5 6 7 show ?thesis by blast
qed

text \<open>
  Claim C2, amended. On every string, \<open>getYoutubeVideoId\<close> returns a token exactly
  when that token is the rightmost token of the URL (the text after the rightmost
  marker of the pattern that follows a prefix free of line terminators, up to the first
  of \<open>#\<close>, \<open>&\<close>, \<open>?\<close> or the end) and has 11 characters. For a URL in which no
  marker occurs, and for a URL whose rightmost token does not have 11 characters, it
  returns nothing, and then \<open>handleYoutubeFetch\<close> does nothing but alert that the URL
  is invalid. On a string of 8-bit code units the component's function is this one.
\<close>

theorem identifier_extraction:
  "(getYoutubeVideoId_units url = Some tok \<longleftrightarrow> rightmost_token url tok \<and> length tok = 11)
   \<and> (\<not> has_marker url \<longrightarrow> getYoutubeVideoId_units url = None)
   \<and> (rightmost_token url tok \<and> length tok \<noteq> 11 \<longrightarrow> getYoutubeVideoId_units url = None)
   \<and> (getYoutubeVideoId url8 = Some tok8 \<longleftrightarrow>
        getYoutubeVideoId_units (units url8) = Some (units tok8))
   \<and> (getYoutubeVideoId_units (units (youtubeUrl s)) = None \<longrightarrow>
        handleYoutubeFetch pf s = emit [Alert ''Invalid YouTube URL''] s)"
proof (intro conjI impI)
  show "getYoutubeVideoId_units url = Some tok \<longleftrightarrow> rightmost_token url tok \<and> length tok = 11"
  proof
    assume "getYoutubeVideoId_units url = Some tok"
    then have "regExp_match url = Some tok" "length tok = 11"
      by (auto simp add: getYoutubeVideoId_units_def split: option.splits if_splits)
    then show "rightmost_token url tok \<and> length tok = 11"
      by (simp add: match_rightmost_token)
  next
    assume "rightmost_token url tok \<and> length tok = 11"
    then show "getYoutubeVideoId_units url = Some tok"
      using rightmost_token_match[of url tok] by (simp add: getYoutubeVideoId_units_def)
  qed
  show "getYoutubeVideoId_units url = None" if "\<not> has_marker url"
    using that by (simp add: getYoutubeVideoId_units_def no_marker_no_match)
  show "getYoutubeVideoId_units url = None" if "rightmost_token url tok \<and> length tok \<noteq> 11"
    using that rightmost_token_match[of url tok] by (simp add: getYoutubeVideoId_units_def)
  show "getYoutubeVideoId url8 = Some tok8 \<longleftrightarrow>
        getYoutubeVideoId_units (units url8) = Some (units tok8)"
    by (rule getYoutubeVideoId_units_8bit)
  show "handleYoutubeFetch pf s = emit [Alert ''Invalid YouTube URL''] s"
    if "getYoutubeVideoId_units (units (youtubeUrl s)) = None"
    using that getYoutubeVideoId_None[of "youtubeUrl s"] by (simp add: handleYoutubeFetch_def)
qed

theorem identifier_extraction_witness:
  "getYoutubeVideoId_units (units ''https://www.youtube.com/watch?v=dQw4w9WgXcQ&t=42s'')
     = Some (units ''dQw4w9WgXcQ'')
   \<and> getYoutubeVideoId ''https://www.youtube.com/watch?v=dQw4w9WgXcQ&t=42s'' = Some ''dQw4w9WgXcQ''
   \<and> getYoutubeVideoId_units (units ''https://example.com/audio.mp3'') = None
   \<and> getYoutubeVideoId_units (units ''https://youtu.be/dQw4w9WgX'') = None
   \<and> handleYoutubeFetch (serving empty_chunk) (initial_session\<lparr>youtubeUrl := ''https://youtu.be/dQw4w9WgX''\<rparr>)
       = emit [Alert ''Invalid YouTube URL''] (initial_session\<lparr>youtubeUrl := ''https://youtu.be/dQw4w9WgX''\<rparr>)"
proof -
  let ?watch = "''https://www.youtube.com/watch?v=dQw4w9WgXcQ&t=42s''"
  let ?short = "''https://youtu.be/dQw4w9WgX''"
  let ?s = "initial_session\<lparr>youtubeUrl := ?short\<rparr>"
  have a: "rightmost_token (units ?watch) (units ''dQw4w9WgXcQ'')"
    by (rule match_rightmost_token) (rule eval_regExp)
  have b: "\<not> has_marker (units ''https://example.com/audio.mp3'')"
    by (rule no_match_no_marker) (rule eval_regExp)
  have c: "rightmost_token (units ?short) (units ''dQw4w9WgX'')"
    by (rule match_rightmost_token) (rule eval_regExp)
  have len: "length (units ''dQw4w9WgXcQ'') = 11" "length (units ''dQw4w9WgX'') \<noteq> 11"
    by (simp_all add: units_def)
  from a len identifier_extraction [of "units ?watch" "units ''dQw4w9WgXcQ''"]
  have 1: "getYoutubeVideoId_units (units ?watch) = Some (units ''dQw4w9WgXcQ'')"
    by simp
  from 1 identifier_extraction [of _ _ ?watch "''dQw4w9WgXcQ''"]
  have 2: "getYoutubeVideoId ?watch = Some ''dQw4w9WgXcQ''"
    by simp
  from b identifier_extraction [of "units ''https://example.com/audio.mp3''"]
  have 3: "getYoutubeVideoId_units (units ''https://example.com/audio.mp3'') = None"
    by simp
  from c len identifier_extraction [of "units ?short" "units ''dQw4w9WgX''"]
  have 4: "getYoutubeVideoId_units (units ?short) = None"
    by simp
  have "youtubeUrl ?s = ?short" by simp
  with 4 identifier_extraction [of _ _ _ _ ?s "serving empty_chunk"]
  have 5: "handleYoutubeFetch (serving empty_chunk) ?s = emit [Alert ''Invalid YouTube URL''] ?s"
    by simp
  from 1 2 3 4 5 show ?thesis by blast
qed

section \<open>Properties of the retrieval loop\<close>

lemma relay_calls: "snd (relay pf t cs) = cs @ [proxyUrl pf t]"
  by (simp add: relay_def Let_def split: fetch_result.splits sum.splits)

lemma relay_Break: "(fst (relay pf t cs) = Break b) = (yields (fetch pf cs (proxyUrl pf t)) = Some b)"
  by (auto simp add: relay_def Let_def yields_def split: fetch_result.splits sum.splits)

lemma try_instance_calls:
  "snd (try_instance pf v i cs) =
     cs @ (if attempt_throws (fetch pf cs (targetUrl i v))
           then [targetUrl i v, proxyUrl pf (targetUrl i v)] else [targetUrl i v])"
  by (simp add: try_instance_def Let_def attempt_throws_def relay_calls
           split: fetch_result.splits sum.splits)

lemma try_instance_direct:
  "yields (fetch pf cs (targetUrl i v)) = Some b \<Longrightarrow>
     try_instance pf v i cs = (Break b, cs @ [targetUrl i v])"
  by (auto simp add: try_instance_def Let_def yields_def split: fetch_result.splits sum.splits if_splits)

lemma try_instance_both_fail:
  assumes "attempt_throws (fetch pf cs (targetUrl i v))"
      and "yields (fetch pf (cs @ [targetUrl i v]) (proxyUrl pf (targetUrl i v))) = None"
  shows "fst (try_instance pf v i cs) \<noteq> Break b"
    and "snd (try_instance pf v i cs) = cs @ [targetUrl i v, proxyUrl pf (targetUrl i v)]"
proof -
  show "snd (try_instance pf v i cs) = cs @ [targetUrl i v, proxyUrl pf (targetUrl i v)]"
    using assms(1) by (simp add: try_instance_calls)
  have "try_instance pf v i cs = relay pf (targetUrl i v) (cs @ [targetUrl i v])"
    using assms(1)
    by (auto simp add: try_instance_def Let_def attempt_throws_def split: fetch_result.splits sum.splits)
  then show "fst (try_instance pf v i cs) \<noteq> Break b"
    using assms(2) by (simp add: relay_Break)
qed

lemma try_instances_error_irrelevant:
  "calls st = calls st' \<Longrightarrow> blob st = blob st' \<Longrightarrow>
     blob (try_instances pf v is st) = blob (try_instances pf v is st') \<and>
     calls (try_instances pf v is st) = calls (try_instances pf v is st')"
proof (induction "is" arbitrary: st st')
  case Nil
  then show ?case by simp
next
  case (Cons i "is")
  obtain a cs where tr: "try_instance pf v i (calls st) = (a, cs)"
    by (cases "try_instance pf v i (calls st)")
  show ?case
  proof (cases a)
    case (Break x)
    with tr Cons.prems show ?thesis by simp
  next
    case Fallthrough
    with tr Cons.prems Cons.IH[of "st\<lparr>calls := cs\<rparr>" "st'\<lparr>calls := cs\<rparr>"]
    show ?thesis by simp
  next
    case (Caught e)
    with tr Cons.prems
      Cons.IH[of "st\<lparr>error := Some e, calls := cs\<rparr>" "st'\<lparr>error := Some e, calls := cs\<rparr>"]
    show ?thesis by simp
  qed
qed

lemma try_instances_skip:
  assumes "\<And>b. fst (try_instance pf v i (calls st)) \<noteq> Break b"
  shows "blob (try_instances pf v (i # rest) st) =
           blob (try_instances pf v rest (st\<lparr>calls := snd (try_instance pf v i (calls st))\<rparr>))
       \<and> calls (try_instances pf v (i # rest) st) =
           calls (try_instances pf v rest (st\<lparr>calls := snd (try_instance pf v i (calls st))\<rparr>))"
proof -
  obtain a cs where tr: "try_instance pf v i (calls st) = (a, cs)"
    by (cases "try_instance pf v i (calls st)")
  show ?thesis
  proof (cases a)
    case (Break x)
    with tr assms[of x] show ?thesis by simp
  next
    case Fallthrough
    with tr show ?thesis by simp
  next
    case (Caught e)
    with tr
      try_instances_error_irrelevant[of "st\<lparr>error := Some e, calls := cs\<rparr>" "st\<lparr>calls := cs\<rparr>" pf v rest]
    show ?thesis by simp
  qed
qed

lemma try_instance_not_ok:
  "fetch pf cs (targetUrl i v) = Resolves r \<Longrightarrow> \<not> ok r \<Longrightarrow>
     try_instance pf v i cs = (Fallthrough, cs @ [targetUrl i v])"
  by (simp add: try_instance_def Let_def)


lemma try_instance_relayed:
  assumes "attempt_throws (fetch pf cs (targetUrl i v))"
      and "yields (fetch pf (cs @ [targetUrl i v]) (proxyUrl pf (targetUrl i v))) = Some b"
  shows "try_instance pf v i cs = (Break b, cs @ [targetUrl i v, proxyUrl pf (targetUrl i v)])"
proof -
  have "try_instance pf v i cs = relay pf (targetUrl i v) (cs @ [targetUrl i v])"
    using assms(1)
    by (auto simp add: try_instance_def Let_def attempt_throws_def split: fetch_result.splits sum.splits)
  moreover have "fst (relay pf (targetUrl i v) (cs @ [targetUrl i v])) = Break b"
    using assms(2) by (simp add: relay_Break)
  ultimately show ?thesis
    using relay_calls[of pf "targetUrl i v" "cs @ [targetUrl i v]"]
    by (cases "relay pf (targetUrl i v) (cs @ [targetUrl i v])") simp
qed

lemma try_instance_Break:
  "fst (try_instance pf v i cs) = Break b \<longleftrightarrow>
     yields (fetch pf cs (targetUrl i v)) = Some b \<or>
     (attempt_throws (fetch pf cs (targetUrl i v)) \<and>
      yields (fetch pf (cs @ [targetUrl i v]) (proxyUrl pf (targetUrl i v))) = Some b)"
  by (auto simp add: try_instance_def relay_def Let_def attempt_throws_def yields_def
        split: fetch_result.splits sum.splits if_splits)

lemma try_instances_append:
  assumes "blob st = None"
  shows "try_instances pf v (ys @ zs) st =
           (if blob (try_instances pf v ys st) = None
            then try_instances pf v zs (try_instances pf v ys st)
            else try_instances pf v ys st)"
  using assms
proof (induction ys arbitrary: st)
  case Nil
  then show ?case by simp
next
  case (Cons i ys)
  obtain a cs where tr: "try_instance pf v i (calls st) = (a, cs)"
    by (cases "try_instance pf v i (calls st)")
  show ?case
  proof (cases a)
    case (Break x)
    with tr show ?thesis by simp
  next
    case Fallthrough
    with tr Cons.prems Cons.IH[of "st\<lparr>calls := cs\<rparr>"] show ?thesis by simp
  next
    case (Caught e)
    with tr Cons.prems Cons.IH[of "st\<lparr>error := Some e, calls := cs\<rparr>"] show ?thesis by simp
  qed
qed

lemma try_instances_single:
  assumes "blob st = None"
  shows "blob (try_instances pf v [i] st) = None \<longleftrightarrow>
           yields (fetch pf (calls st) (targetUrl i v)) = None \<and>
           (attempt_throws (fetch pf (calls st) (targetUrl i v)) \<longrightarrow>
              yields (fetch pf (calls st @ [targetUrl i v]) (proxyUrl pf (targetUrl i v))) = None)"
proof -
  obtain a cs where tr: "try_instance pf v i (calls st) = (a, cs)"
    by (cases "try_instance pf v i (calls st)")
  have "blob (try_instances pf v [i] st) = None \<longleftrightarrow> (\<forall>b. a \<noteq> Break b)"
    using tr assms by (cases a) simp_all
  also have "\<dots> \<longleftrightarrow> (\<forall>b. fst (try_instance pf v i (calls st)) \<noteq> Break b)"
    using tr by simp
  also have "\<dots> \<longleftrightarrow> yields (fetch pf (calls st) (targetUrl i v)) = None \<and>
           (attempt_throws (fetch pf (calls st) (targetUrl i v)) \<longrightarrow>
              yields (fetch pf (calls st @ [targetUrl i v]) (proxyUrl pf (targetUrl i v))) = None)"
    unfolding try_instance_Break by (simp add: all_conj_distrib)
  finally show ?thesis .
qed

text \<open>
  Claim C1. The loop tries the endpoints one after the other in the order of the list,
  and the first endpoint whose direct or relayed attempt yields a blob ends the whole
  search. In the order of the conjuncts: over \<open>[A, B, C]\<close>, when the direct attempt on
  A throws, the relayed attempt on A yields no blob and the direct attempt on B yields
  \<open>b\<close>, the loop ends with \<open>b\<close> and has requested exactly A directly, A through the
  relay and B directly, so nothing for C; a direct attempt that yields a blob ends the
  loop with that blob and this one request, whatever endpoints follow; so does a
  relayed attempt that yields a blob after the direct attempt threw, with these two
  requests; an endpoint leaves the loop without a blob exactly when its direct attempt
  yields none and, if it threw, its relayed attempt yields none either; when a prefix
  of the list has produced a blob, the loop over the whole list is the loop over that
  prefix; and when it has not, the loop goes on with the rest from the state the prefix
  left.
\<close>

theorem first_success_wins:
  "(attempt_throws (fetch pf (calls st) (targetUrl A v)) \<and>
    yields (fetch pf (calls st @ [targetUrl A v]) (proxyUrl pf (targetUrl A v))) = None \<and>
    yields (fetch pf (calls st @ [targetUrl A v, proxyUrl pf (targetUrl A v)]) (targetUrl B v)) = Some b
    \<longrightarrow> blob (try_instances pf v [A, B, C] st) = Some b \<and>
        calls (try_instances pf v [A, B, C] st) =
          calls st @ [targetUrl A v, proxyUrl pf (targetUrl A v), targetUrl B v])
   \<and> (yields (fetch pf (calls st) (targetUrl i v)) = Some b
    \<longrightarrow> try_instances pf v (i # rest) st =
          st\<lparr>blob := Some b, calls := calls st @ [targetUrl i v]\<rparr>)
   \<and> (attempt_throws (fetch pf (calls st) (targetUrl i v)) \<and>
      yields (fetch pf (calls st @ [targetUrl i v]) (proxyUrl pf (targetUrl i v))) = Some b
    \<longrightarrow> try_instances pf v (i # rest) st =
          st\<lparr>blob := Some b, calls := calls st @ [targetUrl i v, proxyUrl pf (targetUrl i v)]\<rparr>)
   \<and> (blob st = None
    \<longrightarrow> (blob (try_instances pf v [i] st) = None \<longleftrightarrow>
           yields (fetch pf (calls st) (targetUrl i v)) = None \<and>
           (attempt_throws (fetch pf (calls st) (targetUrl i v)) \<longrightarrow>
              yields (fetch pf (calls st @ [targetUrl i v]) (proxyUrl pf (targetUrl i v))) = None)))
   \<and> (blob st = None \<and> blob (try_instances pf v ys st) \<noteq> None
    \<longrightarrow> try_instances pf v (ys @ zs) st = try_instances pf v ys st)
   \<and> (blob st = None \<and> blob (try_instances pf v ys st) = None
    \<longrightarrow> try_instances pf v (ys @ zs) st = try_instances pf v zs (try_instances pf v ys st))"
proof (intro conjI impI)
  assume h: "attempt_throws (fetch pf (calls st) (targetUrl A v)) \<and>
    yields (fetch pf (calls st @ [targetUrl A v]) (proxyUrl pf (targetUrl A v))) = None \<and>
    yields (fetch pf (calls st @ [targetUrl A v, proxyUrl pf (targetUrl A v)]) (targetUrl B v)) = Some b"
  let ?st1 = "st\<lparr>calls := snd (try_instance pf v A (calls st))\<rparr>"
  have c1: "snd (try_instance pf v A (calls st)) = calls st @ [targetUrl A v, proxyUrl pf (targetUrl A v)]"
    using try_instance_both_fail(2)[of pf "calls st" A v] h by simp
  have nb: "\<And>b. fst (try_instance pf v A (calls st)) \<noteq> Break b"
    using try_instance_both_fail(1)[of pf "calls st" A v] h by simp
  have B: "try_instance pf v B (calls ?st1) = (Break b, calls ?st1 @ [targetUrl B v])"
    using h c1 by (intro try_instance_direct) simp
  have "blob (try_instances pf v [B, C] ?st1) = Some b \<and>
        calls (try_instances pf v [B, C] ?st1) = calls ?st1 @ [targetUrl B v]"
    using B by simp
  with try_instances_skip[OF nb, of "[B, C]"] c1
  show "blob (try_instances pf v [A, B, C] st) = Some b"
   and "calls (try_instances pf v [A, B, C] st) =
          calls st @ [targetUrl A v, proxyUrl pf (targetUrl A v), targetUrl B v]"
    by simp_all
next
  assume "yields (fetch pf (calls st) (targetUrl i v)) = Some b"
  then show "try_instances pf v (i # rest) st = st\<lparr>blob := Some b, calls := calls st @ [targetUrl i v]\<rparr>"
    by (simp add: try_instance_direct)
next
  assume "attempt_throws (fetch pf (calls st) (targetUrl i v)) \<and>
      yields (fetch pf (calls st @ [targetUrl i v]) (proxyUrl pf (targetUrl i v))) = Some b"
  then show "try_instances pf v (i # rest) st =
          st\<lparr>blob := Some b, calls := calls st @ [targetUrl i v, proxyUrl pf (targetUrl i v)]\<rparr>"
    by (simp add: try_instance_relayed)
next
  assume "blob st = None"
  then show "blob (try_instances pf v [i] st) = None \<longleftrightarrow>
           yields (fetch pf (calls st) (targetUrl i v)) = None \<and>
           (attempt_throws (fetch pf (calls st) (targetUrl i v)) \<longrightarrow>
              yields (fetch pf (calls st @ [targetUrl i v]) (proxyUrl pf (targetUrl i v))) = None)"
    by (rule try_instances_single)
next
  assume "blob st = None \<and> blob (try_instances pf v ys st) \<noteq> None"
  then show "try_instances pf v (ys @ zs) st = try_instances pf v ys st"
    using try_instances_append[of st pf v ys zs] by auto
next
  assume "blob st = None \<and> blob (try_instances pf v ys st) = None"
  then show "try_instances pf v (ys @ zs) st = try_instances pf v zs (try_instances pf v ys st)"
    by (simp add: try_instances_append)
qed

theorem first_success_wins_witness:
  "try_instances (first_down ''https://a.example'' (bytes_of_size 4)) ''dQw4w9WgXcQ''
       [''https://a.example'', ''https://b.example'', ''https://c.example''] no_retrieval
     = \<lparr>blob = Some (bytes_of_size 4), error = None,
        calls = [''https://a.example/latest_version?id=dQw4w9WgXcQ&itag=140&local=true'',
                 ''https://corsproxy.io/?https://a.example/latest_version?id=dQw4w9WgXcQ&itag=140&local=true'',
                 ''https://b.example/latest_version?id=dQw4w9WgXcQ&itag=140&local=true'']\<rparr>
   \<and> try_instances (serving (bytes_of_size 4)) ''dQw4w9WgXcQ''
       [''https://a.example'', ''https://b.example'', ''https://c.example''] no_retrieval
     = \<lparr>blob = Some (bytes_of_size 4), error = None,
        calls = [''https://a.example/latest_version?id=dQw4w9WgXcQ&itag=140&local=true'']\<rparr>
   \<and> try_instances (relay_only ''https://a.example'' (bytes_of_size 4)) ''dQw4w9WgXcQ''
       [''https://a.example'', ''https://b.example'', ''https://c.example''] no_retrieval
     = \<lparr>blob = Some (bytes_of_size 4), error = None,
        calls = [''https://a.example/latest_version?id=dQw4w9WgXcQ&itag=140&local=true'',
                 ''https://corsproxy.io/?https://a.example/latest_version?id=dQw4w9WgXcQ&itag=140&local=true'']\<rparr>
   \<and> blob (try_instances (first_down ''https://a.example'' (bytes_of_size 4)) ''dQw4w9WgXcQ''
              [''https://a.example''] no_retrieval) = None"
proof -
  let ?A = "''https://a.example''" and ?B = "''https://b.example''" and ?C = "''https://c.example''"
  let ?v = "''dQw4w9WgXcQ''" and ?b = "bytes_of_size 4"
  let ?down = "first_down ?A ?b" and ?up = "serving ?b" and ?relay = "relay_only ?A ?b"
  note defs = first_down_def serving_def relay_only_def targetUrl_def proxyUrl_def
    attempt_throws_def yields_def no_retrieval_def
  have single: "blob (try_instances ?down ?v [?A] no_retrieval) = None"
    using first_success_wins [of ?down no_retrieval ?A ?v ?B ?b ?C ?A "[]" "[]" "[]"]
    by (simp add: defs)
  have first: "try_instances ?down ?v [?A] no_retrieval =
      \<lparr>blob = None, error = None,
       calls = [''https://a.example/latest_version?id=dQw4w9WgXcQ&itag=140&local=true'',
                ''https://corsproxy.io/?https://a.example/latest_version?id=dQw4w9WgXcQ&itag=140&local=true'']\<rparr>"
    by (simp add: defs try_instance_def relay_def Let_def)
  have second: "try_instances ?down ?v [?B, ?C] (try_instances ?down ?v [?A] no_retrieval) =
      \<lparr>blob = Some ?b, error = None,
       calls = [''https://a.example/latest_version?id=dQw4w9WgXcQ&itag=140&local=true'',
                ''https://corsproxy.io/?https://a.example/latest_version?id=dQw4w9WgXcQ&itag=140&local=true'',
                ''https://b.example/latest_version?id=dQw4w9WgXcQ&itag=140&local=true'']\<rparr>"
    unfolding first
    using first_success_wins [of ?down "\<lparr>blob = None, error = None,
       calls = [''https://a.example/latest_version?id=dQw4w9WgXcQ&itag=140&local=true'',
                ''https://corsproxy.io/?https://a.example/latest_version?id=dQw4w9WgXcQ&itag=140&local=true'']\<rparr>"
           ?A ?v ?B ?b ?C ?B "[?C]" "[]" "[]"]
    by (simp add: defs)
  have sequential: "try_instances ?down ?v [?A, ?B, ?C] no_retrieval =
      try_instances ?down ?v [?B, ?C] (try_instances ?down ?v [?A] no_retrieval)"
    using single first_success_wins [of ?down no_retrieval ?A ?v ?B ?b ?C ?A "[]" "[?A]" "[?B, ?C]"]
    by (simp add: no_retrieval_def)
  have scenario: "blob (try_instances ?down ?v [?A, ?B, ?C] no_retrieval) = Some ?b"
    using first_success_wins [of ?down no_retrieval ?A ?v ?B ?b ?C ?A "[]" "[]" "[]"]
    by (simp add: defs)
  have direct: "try_instances ?up ?v [?A, ?B, ?C] no_retrieval =
      \<lparr>blob = Some ?b, error = None,
       calls = [''https://a.example/latest_version?id=dQw4w9WgXcQ&itag=140&local=true'']\<rparr>"
    using first_success_wins [of ?up no_retrieval ?A ?v ?B ?b ?C ?A "[?B, ?C]" "[]" "[]"]
    by (simp add: defs)
  have relayed: "try_instances ?relay ?v [?A, ?B, ?C] no_retrieval =
      \<lparr>blob = Some ?b, error = None,
       calls = [''https://a.example/latest_version?id=dQw4w9WgXcQ&itag=140&local=true'',
                ''https://corsproxy.io/?https://a.example/latest_version?id=dQw4w9WgXcQ&itag=140&local=true'']\<rparr>"
    using first_success_wins [of ?relay no_retrieval ?A ?v ?B ?b ?C ?A "[?B, ?C]" "[]" "[]"]
    by (simp add: defs)
  have ends: "try_instances ?down ?v ([?A, ?B] @ [?C]) no_retrieval =
              try_instances ?down ?v [?A, ?B] no_retrieval"
    using first_success_wins [of ?down no_retrieval ?A ?v ?B ?b ?C ?A "[]" "[?A, ?B]" "[?C]"]
    by (simp add: defs try_instance_def relay_def Let_def)
  from sequential second scenario direct relayed single ends show ?thesis by simp
qed

text \<open>
  Claim C8. The body of the loop requests the target URL and then, if and only if that
  direct attempt throws, the same target URL once through the relay, and nothing else.
  A direct response with a non-success status does not throw: the loop goes on to the
  next endpoint with the direct request as the only one made for the current endpoint.
\<close>

theorem relay_iff_direct_throws:
  "snd (try_instance pf v i cs) =
     cs @ (if attempt_throws (fetch pf cs (targetUrl i v))
           then [targetUrl i v, proxyUrl pf (targetUrl i v)]
           else [targetUrl i v])
   \<and> (\<forall>r. fetch pf (calls st) (targetUrl i v) = Resolves r \<and> \<not> ok r \<longrightarrow>
          \<not> attempt_throws (fetch pf (calls st) (targetUrl i v)) \<and>
          try_instances pf v (i # rest) st =
            try_instances pf v rest (st\<lparr>calls := calls st @ [targetUrl i v]\<rparr>))"
  by (simp add: try_instance_calls try_instance_not_ok attempt_throws_def)

theorem relay_iff_direct_throws_witness:
  "snd (try_instance (first_down ''https://a.example'' (bytes_of_size 4)) ''dQw4w9WgXcQ'' ''https://a.example'' []) =
     [''https://a.example/latest_version?id=dQw4w9WgXcQ&itag=140&local=true'',
      ''https://corsproxy.io/?https://a.example/latest_version?id=dQw4w9WgXcQ&itag=140&local=true'']
   \<and> snd (try_instance (first_down ''https://a.example'' (bytes_of_size 4)) ''dQw4w9WgXcQ'' ''https://b.example'' []) =
     [''https://b.example/latest_version?id=dQw4w9WgXcQ&itag=140&local=true'']
   \<and> try_instances (first_refuses ''https://a.example'' (bytes_of_size 4)) ''dQw4w9WgXcQ''
         [''https://a.example'', ''https://b.example''] no_retrieval =
       \<lparr>blob = Some (bytes_of_size 4), error = None,
        calls = [''https://a.example/latest_version?id=dQw4w9WgXcQ&itag=140&local=true'',
                 ''https://b.example/latest_version?id=dQw4w9WgXcQ&itag=140&local=true'']\<rparr>"
proof -
  let ?down = "first_down ''https://a.example'' (bytes_of_size 4)"
  let ?refuses = "first_refuses ''https://a.example'' (bytes_of_size 4)"
  have refused: "fetch ?refuses (calls no_retrieval) (targetUrl ''https://a.example'' ''dQw4w9WgXcQ'')
                   = Resolves (Response False (Inr empty_chunk))
                 \<and> \<not> ok (Response False (Inr empty_chunk))"
    by (simp add: first_refuses_def)
  have next_one: "try_instances ?refuses ''dQw4w9WgXcQ'' [''https://b.example'']
                    (no_retrieval\<lparr>calls := calls no_retrieval @ [targetUrl ''https://a.example'' ''dQw4w9WgXcQ'']\<rparr>)
                  = \<lparr>blob = Some (bytes_of_size 4), error = None,
                     calls = [''https://a.example/latest_version?id=dQw4w9WgXcQ&itag=140&local=true'',
                              ''https://b.example/latest_version?id=dQw4w9WgXcQ&itag=140&local=true'']\<rparr>"
    by (simp add: first_refuses_def no_retrieval_def try_instance_def targetUrl_def Let_def)
  show ?thesis
    using relay_iff_direct_throws [of ?down "''dQw4w9WgXcQ''" "''https://a.example''" "[]" no_retrieval "[]"]
          relay_iff_direct_throws [of ?down "''dQw4w9WgXcQ''" "''https://b.example''" "[]" no_retrieval "[]"]
          relay_iff_direct_throws [of ?refuses "''dQw4w9WgXcQ''" "''https://a.example''" "[]" no_retrieval
             "[''https://b.example'']"]
          refused next_one
    by (simp add: first_down_def targetUrl_def proxyUrl_def attempt_throws_def)
qed

section \<open>The size ceiling\<close>

lemma getYoutubeVideoId_length: "getYoutubeVideoId url = Some v \<Longrightarrow> length v = 11"
  by (auto simp add: getYoutubeVideoId_def getYoutubeVideoId_units_def chars_def
        split: option.splits if_splits)

text \<open>
  Claim C3. When the retrieval has obtained a blob of exactly 20 MiB, the handler reads
  it for encoding and hands over a payload; when the blob has 20 MiB + 1 bytes or more,
  the handler alerts that the audio is too large, and neither reads the blob for
  encoding nor hands over a payload.
\<close>

theorem size_ceiling:
  assumes "getYoutubeVideoId (youtubeUrl s) = Some v"
      and "try_instances pf v instances no_retrieval = st"
      and "blob st = Some b"
  shows "(blob_size b = 20 * 1024 * 1024 \<longrightarrow>
            trace (handleYoutubeFetch pf s) =
              trace s @ map Fetch (calls st) @
                [ReadAsDataURL b,
                 OnAudioReady \<lparr>file_obj = None, base64 = base64String pf b,
                               mimeType = ''audio/mp4'', duration = None,
                               name = Some (''YouTube_'' @ v @ ''.m4a'')\<rparr>])
       \<and> (blob_size b \<ge> 20 * 1024 * 1024 + 1 \<longrightarrow>
            trace (handleYoutubeFetch pf s) =
              trace s @ map Fetch (calls st) @
                [Alert ''Video audio is too large (>20MB). Please use a shorter video.''])"
proof -
  have "v \<noteq> []" using getYoutubeVideoId_length[OF assms(1)] by auto
  then show ?thesis
    using assms by (simp add: handleYoutubeFetch_def Let_def emit_def no_retrieval_def)
qed

lemma sample_url: "getYoutubeVideoId ''https://youtu.be/dQw4w9WgXcQ'' = Some ''dQw4w9WgXcQ''"
  unfolding getYoutubeVideoId_units_8bit
  by (simp add: getYoutubeVideoId_units_def regExp_match_def shapes_def dot_class_def
        line_terminator_def token_class_def word_class_def units_def)

lemma serving_first:
  "try_instances (serving b) v instances no_retrieval =
     \<lparr>blob = Some b, error = None, calls = [targetUrl ''https://inv.nadeko.net'' v]\<rparr>"
  by (simp add: instances_def no_retrieval_def try_instance_def serving_def Let_def)

theorem size_ceiling_witness:
  "trace (handleYoutubeFetch (serving (bytes_of_size (20 * 1024 * 1024)))
            (initial_session\<lparr>youtubeUrl := ''https://youtu.be/dQw4w9WgXcQ''\<rparr>)) =
     [Fetch ''https://inv.nadeko.net/latest_version?id=dQw4w9WgXcQ&itag=140&local=true'',
      ReadAsDataURL (bytes_of_size (20 * 1024 * 1024)),
      OnAudioReady \<lparr>file_obj = None, base64 = Some ''QUJD'', mimeType = ''audio/mp4'',
                    duration = None, name = Some ''YouTube_dQw4w9WgXcQ.m4a''\<rparr>]
   \<and> trace (handleYoutubeFetch (serving (bytes_of_size (20 * 1024 * 1024 + 1)))
            (initial_session\<lparr>youtubeUrl := ''https://youtu.be/dQw4w9WgXcQ''\<rparr>)) =
     [Fetch ''https://inv.nadeko.net/latest_version?id=dQw4w9WgXcQ&itag=140&local=true'',
      Alert ''Video audio is too large (>20MB). Please use a shorter video.'']"
proof -
  let ?s = "initial_session\<lparr>youtubeUrl := ''https://youtu.be/dQw4w9WgXcQ''\<rparr>"
  have id: "getYoutubeVideoId (youtubeUrl ?s) = Some ''dQw4w9WgXcQ''"
    by (simp add: sample_url)
  have b64': "base64String (serving (bytes_of_size n)) (bytes_of_size n) = Some ''QUJD''" for n
    by (simp add: base64String_def serving_def sample_dataURL_def bytes_of_size_def js_index_def)
  note a = size_ceiling [OF id serving_first [of "bytes_of_size (20 * 1024 * 1024)"], of "bytes_of_size (20 * 1024 * 1024)"]
  note b = size_ceiling [OF id serving_first [of "bytes_of_size (20 * 1024 * 1024 + 1)"], of "bytes_of_size (20 * 1024 * 1024 + 1)"]
  show ?thesis
    using a b b64'
    by (simp add: blob_size_def bytes_of_size_def initial_session_def targetUrl_def)
qed

section \<open>File validation\<close>

text \<open>
  Claim C7. For a selected file whose type does not start with \<open>audio/\<close> the handler
  alerts and hands over no payload; for a file whose type does, it reads the file and
  hands over a payload whose content type is the file's type and whose name is the
  file's name.
\<close>

theorem file_type_validation:
  "(\<not> startsWith (file_type f) ''audio/'' \<longrightarrow>
      trace (handleFileUpload pf (f # fs) s) =
        trace s @ [Alert ''Please upload a valid audio file.''])
   \<and> (startsWith (file_type f) ''audio/'' \<longrightarrow>
      trace (handleFileUpload pf (f # fs) s) =
        trace s @ [ReadAsDataURL (file_blob f),
                   OnAudioReady \<lparr>file_obj = Some f, base64 = base64String pf (file_blob f),
                                 mimeType = file_type f, duration = None,
                                 name = Some (file_name f)\<rparr>])"
  by (simp add: handleFileUpload_def js_index_def emit_def)

theorem file_type_validation_witness:
  "trace (handleFileUpload (serving empty_chunk)
            [\<lparr>file_name = ''notes.txt'', file_type = ''text/plain'', file_data = [72, 105]\<rparr>]
            initial_session)
     = [Alert ''Please upload a valid audio file.'']
   \<and> payloads (trace (handleFileUpload (serving empty_chunk)
            [\<lparr>file_name = ''talk.mp3'', file_type = ''audio/mpeg'', file_data = [73, 68, 51]\<rparr>]
            initial_session))
     = [\<lparr>file_obj = Some \<lparr>file_name = ''talk.mp3'', file_type = ''audio/mpeg'', file_data = [73, 68, 51]\<rparr>,
         base64 = Some ''QUJD'', mimeType = ''audio/mpeg'', duration = None,
         name = Some ''talk.mp3''\<rparr>]"
  using file_type_validation [of "\<lparr>file_name = ''notes.txt'', file_type = ''text/plain'', file_data = [72, 105]\<rparr>"
          "serving empty_chunk" "[]" initial_session]
        file_type_validation [of "\<lparr>file_name = ''talk.mp3'', file_type = ''audio/mpeg'', file_data = [73, 68, 51]\<rparr>"
          "serving empty_chunk" "[]" initial_session]
  by (simp add: startsWith_def initial_session_def payloads_def base64String_def serving_def
        sample_dataURL_def file_blob_def js_index_def)

section \<open>Properties of live capture\<close>

lemma deliver_chunks:
  "deliver cs s = s\<lparr>chunksRef := chunksRef s @ filter (\<lambda>d. 0 < blob_size d) cs\<rparr>"
  unfolding deliver_def
  by (induction cs arbitrary: s) (simp_all add: ondataavailable_def)

lemma concat_nonempty_chunks:
  "concat (map blob_data (filter (\<lambda>d. 0 < blob_size d) cs)) = concat (map blob_data cs)"
  by (induction cs) (simp_all add: blob_size_def)

lemma stop_events_trace:
  "trace (stop_events pf g tracks s) =
     trace s @ [ReadAsDataURL (new_Blob (chunksRef s @ filter (\<lambda>d. 0 < blob_size d) [g]) ''audio/webm'')]
       @ map TrackStop tracks
       @ [OnAudioReady \<lparr>file_obj = None,
            base64 = base64String pf (new_Blob (chunksRef s @ filter (\<lambda>d. 0 < blob_size d) [g]) ''audio/webm''),
            mimeType = ''audio/webm'', duration = None,
            name = Some (''Recording_'' @ toLocaleTimeString pf @ ''.webm'')\<rparr>]"
  by (simp add: stop_events_def onstop_def ondataavailable_def emit_def Let_def)

lemma stop_events_fields:
  "isRecording (stop_events pf g tracks s) = isRecording s"
  "mediaRecorderRef (stop_events pf g tracks s) = mediaRecorderRef s"
  "timerRef (stop_events pf g tracks s) = timerRef s"
  "intervals (stop_events pf g tracks s) = intervals s"
  by (simp_all add: stop_events_def onstop_def ondataavailable_def emit_def Let_def)

lemma clear_timer_fields:
  "isRecording (clear_timer s) = isRecording s"
  "mediaRecorderRef (clear_timer s) = mediaRecorderRef s"
  "timerRef (clear_timer s) = timerRef s"
  "chunksRef (clear_timer s) = chunksRef s"
  by (simp_all add: clear_timer_def clearInterval_def emit_def split: option.splits)

lemma clear_timer_active:
  "timerRef s = Some i \<Longrightarrow> i \<noteq> 0 \<Longrightarrow>
     trace (clear_timer s) = trace s @ [ClearInterval i] \<and> intervals (clear_timer s) = intervals s - {i}"
  by (simp add: clear_timer_def clearInterval_def emit_def)









lemma startRecording_Granted:
  "startRecording (Granted tracks) s =
     s\<lparr>mediaRecorderRef := Some \<lparr>rstate = Recording, stream = tracks\<rparr>,
       chunksRef := [], isRecording := True, recordingTime := 0,
       timerRef := Some (Suc (lastTimerId s)),
       intervals := insert (Suc (lastTimerId s)) (intervals s),
       lastTimerId := Suc (lastTimerId s)\<rparr>"
  by (simp add: startRecording_def Let_def)

lemma stopRecording_recording:
  assumes "mediaRecorderRef s = Some r" "rstate r = Recording"
      and "timerRef s = Some i" "i \<noteq> 0"
  shows "trace (stopRecording True pf g s) =
     trace s @ [ClearInterval i,
                ReadAsDataURL (new_Blob (chunksRef s @ filter (\<lambda>d. 0 < blob_size d) [g]) ''audio/webm'')]
       @ map TrackStop (stream r)
       @ [OnAudioReady \<lparr>file_obj = None,
            base64 = base64String pf (new_Blob (chunksRef s @ filter (\<lambda>d. 0 < blob_size d) [g]) ''audio/webm''),
            mimeType = ''audio/webm'', duration = None,
            name = Some (''Recording_'' @ toLocaleTimeString pf @ ''.webm'')\<rparr>]"
proof -
  let ?s2 = "s\<lparr>mediaRecorderRef := Some (inactivate r), isRecording := False\<rparr>"
  have "stopRecording True pf g s = stop_events pf g (stream r) (clear_timer ?s2)"
    using assms by (simp add: stopRecording_def Let_def)
  moreover have "trace (clear_timer ?s2) = trace s @ [ClearInterval i]"
    using clear_timer_active[of ?s2 i] assms by simp
  ultimately show ?thesis
    by (simp add: stop_events_trace clear_timer_fields)
qed

lemma cycle_trace:
  "trace (stopRecording True pf g (deliver cs (startRecording (Granted tracks) s))) =
     trace s @ [ClearInterval (Suc (lastTimerId s)),
                ReadAsDataURL (new_Blob (filter (\<lambda>d. 0 < blob_size d) (cs @ [g])) ''audio/webm'')]
       @ map TrackStop tracks
       @ [OnAudioReady \<lparr>file_obj = None,
            base64 = base64String pf (new_Blob (filter (\<lambda>d. 0 < blob_size d) (cs @ [g])) ''audio/webm''),
            mimeType = ''audio/webm'', duration = None,
            name = Some (''Recording_'' @ toLocaleTimeString pf @ ''.webm'')\<rparr>]"
proof -
  let ?s = "deliver cs (startRecording (Granted tracks) s)"
  have "mediaRecorderRef ?s = Some \<lparr>rstate = Recording, stream = tracks\<rparr>"
       "timerRef ?s = Some (Suc (lastTimerId s))" "trace ?s = trace s"
       "chunksRef ?s = filter (\<lambda>d. 0 < blob_size d) cs"
    by (simp_all add: deliver_chunks startRecording_Granted)
  then show ?thesis
    using stopRecording_recording[of ?s "\<lparr>rstate = Recording, stream = tracks\<rparr>" "Suc (lastTimerId s)" pf g]
    by simp
qed

lemma new_Blob_nonempty:
  "new_Blob (filter (\<lambda>d. 0 < blob_size d) cs) ty = new_Blob cs ty"
  by (simp add: new_Blob_def concat_nonempty_chunks)

text \<open>
  Claim C5. A recording cycle (a granted start, chunks delivered to the recorder's
  handler, a stop by the handler of the recording render, during which the recorder
  delivers its last chunk) reads for encoding
  exactly one blob, the bytes of all delivered chunks one after the other in the order
  of their arrival, and hands over exactly one payload, the encoding of that blob.
\<close>

theorem chunks_concatenated_in_order:
  "trace (stopRecording True pf g (deliver cs (startRecording (Granted tracks) s))) =
     trace s @ [ClearInterval (Suc (lastTimerId s)),
                ReadAsDataURL \<lparr>blob_data = concat (map blob_data (cs @ [g])), blob_type = ''audio/webm''\<rparr>]
       @ map TrackStop tracks
       @ [OnAudioReady \<lparr>file_obj = None,
            base64 = base64String pf \<lparr>blob_data = concat (map blob_data (cs @ [g])), blob_type = ''audio/webm''\<rparr>,
            mimeType = ''audio/webm'', duration = None,
            name = Some (''Recording_'' @ toLocaleTimeString pf @ ''.webm'')\<rparr>]"
  unfolding cycle_trace new_Blob_nonempty
  by (simp add: new_Blob_def)

theorem chunks_concatenated_in_order_witness:
  "encodings (trace (stopRecording True (serving empty_chunk) empty_chunk
      (deliver [chunk 100 1, chunk 200 2, chunk 50 3] (startRecording (Granted [0]) initial_session))))
     = [\<lparr>blob_data = replicate 100 1 @ replicate 200 2 @ replicate 50 3, blob_type = ''audio/webm''\<rparr>]
   \<and> map blob_size (encodings (trace (stopRecording True (serving empty_chunk) empty_chunk
      (deliver [chunk 100 1, chunk 200 2, chunk 50 3] (startRecording (Granted [0]) initial_session)))))
     = [350]
   \<and> length (payloads (trace (stopRecording True (serving empty_chunk) empty_chunk
      (deliver [chunk 100 1, chunk 200 2, chunk 50 3] (startRecording (Granted [0]) initial_session)))))
     = 1"
  unfolding chunks_concatenated_in_order [of "serving empty_chunk" empty_chunk
          "[chunk 100 1, chunk 200 2, chunk 50 3]" "[0]" initial_session]
  by (simp add: encodings_def payloads_def chunk_def empty_chunk_def initial_session_def blob_size_def)

text \<open>
  Claim C10. Whatever the buffer holds before, a granted start empties it; delivering
  chunks puts exactly the chunks of non-zero size into it, in order; and the blob that
  the following stop (by the handler of the recording render) reads for the payload is
  made of exactly the non-empty chunks delivered since that start.
\<close>

theorem fresh_buffer_each_cycle:
  "chunksRef (startRecording (Granted tracks) s) = []
   \<and> chunksRef (deliver cs (startRecording (Granted tracks) s)) = filter (\<lambda>d. 0 < blob_size d) cs
   \<and> encodings (trace (stopRecording True pf g (deliver cs (startRecording (Granted tracks) s)))) =
       encodings (trace s) @ [new_Blob (filter (\<lambda>d. 0 < blob_size d) (cs @ [g])) ''audio/webm'']
   \<and> payloads (trace (stopRecording True pf g (deliver cs (startRecording (Granted tracks) s)))) =
       payloads (trace s) @
         [\<lparr>file_obj = None,
           base64 = base64String pf (new_Blob (filter (\<lambda>d. 0 < blob_size d) (cs @ [g])) ''audio/webm''),
           mimeType = ''audio/webm'', duration = None,
           name = Some (''Recording_'' @ toLocaleTimeString pf @ ''.webm'')\<rparr>]"
proof -
  have e: "encodings (map TrackStop ts) = []" "payloads (map TrackStop ts) = []" for ts
    by (induction ts) (simp_all add: encodings_def payloads_def)
  have app: "encodings (xs @ ys) = encodings xs @ encodings ys"
            "payloads (xs @ ys) = payloads xs @ payloads ys" for xs ys
    by (simp_all add: encodings_def payloads_def)
  have one: "encodings [ClearInterval i, ReadAsDataURL b] = [b]" "payloads [ClearInterval i, ReadAsDataURL b] = []"
            "encodings [OnAudioReady p] = []" "payloads [OnAudioReady p] = [p]" for i b p
    by (simp_all add: encodings_def payloads_def)
  show ?thesis
    unfolding cycle_trace
    by (simp only: app e one deliver_chunks startRecording_Granted) simp
qed

theorem fresh_buffer_each_cycle_witness:
  "chunksRef (stopRecording True (serving empty_chunk) empty_chunk
      (deliver [chunk 3 1] (startRecording (Granted [0]) initial_session))) = [chunk 3 1]
   \<and> encodings (trace (stopRecording True (serving empty_chunk) empty_chunk
        (deliver [chunk 2 7, empty_chunk]
          (startRecording (Granted [1])
            (stopRecording True (serving empty_chunk) empty_chunk
              (deliver [chunk 3 1] (startRecording (Granted [0]) initial_session)))))))
     = [\<lparr>blob_data = [1, 1, 1], blob_type = ''audio/webm''\<rparr>,
        \<lparr>blob_data = [7, 7], blob_type = ''audio/webm''\<rparr>]"
proof -
  let ?s1 = "stopRecording True (serving empty_chunk) empty_chunk
      (deliver [chunk 3 1] (startRecording (Granted [0]) initial_session))"
  have a: "chunksRef ?s1 = [chunk 3 1]"
    by (simp add: deliver_chunks startRecording_Granted stopRecording_def Let_def
          stop_events_def onstop_def ondataavailable_def emit_def clear_timer_def clearInterval_def
          initial_session_def chunk_def empty_chunk_def blob_size_def)
  have b: "encodings (trace ?s1) = [\<lparr>blob_data = [1, 1, 1], blob_type = ''audio/webm''\<rparr>]"
    using fresh_buffer_each_cycle [of "[0]" initial_session "[chunk 3 1]" "serving empty_chunk" empty_chunk]
    by (simp add: initial_session_def encodings_def new_Blob_def chunk_def empty_chunk_def blob_size_def
          numeral_3_eq_3)
  show ?thesis
    using a b fresh_buffer_each_cycle [of "[1]" ?s1 "[chunk 2 7, empty_chunk]" "serving empty_chunk" empty_chunk]
    by (simp add: new_Blob_def chunk_def empty_chunk_def blob_size_def numeral_2_eq_2)
qed




text \<open>
  Claim C4 as stated fails: unmounting the component while it records stops the
  recorder, whose \<open>stop\<close> handler then hands over a payload as after an explicit stop.
\<close>

theorem teardown_no_payload_counterexample:
  "isRecording (startRecording (Granted [0]) initial_session)
   \<and> payloads (trace (unmount (serving empty_chunk) (chunk 3 1)
                 (startRecording (Granted [0]) initial_session))) =
       [\<lparr>file_obj = None, base64 = Some ''QUJD'', mimeType = ''audio/webm'',
         duration = None, name = Some ''Recording_10:15:00.webm''\<rparr>]"
  by (simp add: startRecording_Granted initial_session_def unmount_def Let_def clear_timer_def
        clearInterval_def emit_def stop_events_def onstop_def ondataavailable_def inactivate_def
        payloads_def new_Blob_def chunk_def blob_size_def
        base64String_def serving_def sample_dataURL_def js_index_def)

text \<open>
  Claim C4, amended. When the component unmounts while its recorder records and its
  timer runs, the timer is cancelled, every track of the recorder's stream is stopped,
  and the payload callback is invoked once, with the encoding of the chunks recorded
  up to that moment.
\<close>

theorem teardown_delivers_payload:
  assumes "mediaRecorderRef s = Some r" and "rstate r = Recording"
      and "timerRef s = Some i" and "i \<noteq> 0"
  shows "i \<notin> intervals (unmount pf g s)
       \<and> trace (unmount pf g s) =
           trace s @ [ClearInterval i,
                      ReadAsDataURL (new_Blob (chunksRef s @ filter (\<lambda>d. 0 < blob_size d) [g]) ''audio/webm'')]
             @ map TrackStop (stream r)
             @ [OnAudioReady \<lparr>file_obj = None,
                  base64 = base64String pf (new_Blob (chunksRef s @ filter (\<lambda>d. 0 < blob_size d) [g]) ''audio/webm''),
                  mimeType = ''audio/webm'', duration = None,
                  name = Some (''Recording_'' @ toLocaleTimeString pf @ ''.webm'')\<rparr>]"
proof -
  let ?s1 = "clear_timer s"
  have u: "unmount pf g s = stop_events pf g (stream r) (?s1\<lparr>mediaRecorderRef := Some (inactivate r)\<rparr>)"
    using assms(1,2) by (simp add: unmount_def Let_def clear_timer_fields)
  have t: "trace ?s1 = trace s @ [ClearInterval i]" "intervals ?s1 = intervals s - {i}"
    using clear_timer_active[OF assms(3,4)] by simp_all
  show ?thesis
    unfolding u using t by (simp add: stop_events_trace stop_events_fields clear_timer_fields)
qed

theorem teardown_delivers_payload_witness:
  "Suc 0 \<notin> intervals (unmount (serving empty_chunk) (chunk 3 1)
                        (startRecording (Granted [0]) initial_session))
   \<and> trace (unmount (serving empty_chunk) (chunk 3 1) (startRecording (Granted [0]) initial_session)) =
       [ClearInterval (Suc 0),
        ReadAsDataURL \<lparr>blob_data = [1, 1, 1], blob_type = ''audio/webm''\<rparr>,
        TrackStop 0,
        OnAudioReady \<lparr>file_obj = None, base64 = Some ''QUJD'', mimeType = ''audio/webm'',
                      duration = None, name = Some ''Recording_10:15:00.webm''\<rparr>]"
  using teardown_delivers_payload [of "startRecording (Granted [0]) initial_session"
          "\<lparr>rstate = Recording, stream = [0]\<rparr>" "Suc 0" "serving empty_chunk" "chunk 3 1"]
  by (simp add: startRecording_Granted initial_session_def new_Blob_def chunk_def blob_size_def
        base64String_def serving_def sample_dataURL_def js_index_def numeral_3_eq_3)

section \<open>The transcription guard\<close>

text \<open>
  Claim C9. When there is no payload, or its encoding is absent or empty, or its
  content type is empty, \<open>handleTranscribe\<close> returns the application state as it was,
  the list of requests to the service included. Any request it does make carries the
  payload's non-empty encoding and non-empty content type.
\<close>

theorem transcribe_needs_encoding:
  "((audioData a = None \<or>
     (\<exists>p. audioData a = Some p \<and> (base64 p = None \<or> base64 p = Some [] \<or> mimeType p = [])))
      \<longrightarrow> handleTranscribe gen a = a)
   \<and> (requests (handleTranscribe gen a) = requests a \<or>
       (\<exists>p b. audioData a = Some p \<and> base64 p = Some b \<and> b \<noteq> [] \<and> mimeType p \<noteq> [] \<and>
              requests (handleTranscribe gen a) = requests a @ [(b, mimeType p)]))"
  by (auto simp add: handleTranscribe_def Let_def split: option.splits sum.splits)

theorem transcribe_needs_encoding_witness:
  "handleTranscribe silent_model
     (initial_app\<lparr>audioData := Some \<lparr>file_obj = None, base64 = None, mimeType = ''audio/webm'',
                                      duration = None, name = None\<rparr>\<rparr>)
   = initial_app\<lparr>audioData := Some \<lparr>file_obj = None, base64 = None, mimeType = ''audio/webm'',
                                      duration = None, name = None\<rparr>\<rparr>
   \<and> requests (handleTranscribe silent_model
        (initial_app\<lparr>audioData := Some \<lparr>file_obj = None, base64 = Some ''QUJD'', mimeType = ''audio/webm'',
                                      duration = None, name = None\<rparr>\<rparr>))
     = [(''QUJD'', ''audio/webm'')]"
  using transcribe_needs_encoding [of "initial_app\<lparr>audioData := Some \<lparr>file_obj = None, base64 = None, mimeType = ''audio/webm'',
                                      duration = None, name = None\<rparr>\<rparr>" silent_model]
        transcribe_needs_encoding [of "initial_app\<lparr>audioData := Some \<lparr>file_obj = None, base64 = Some ''QUJD'', mimeType = ''audio/webm'',
                                      duration = None, name = None\<rparr>\<rparr>" silent_model]
  by (simp add: initial_app_def handleTranscribe_def transcribeAudio_def silent_model_def Let_def)

end
